theory Spec2Isabelle
  imports Complex_Main "HOL-Library.Log_Nat"
begin

section \<open>Python exceptions as values\<close>

text \<open>
  Every \<^verbatim>\<open>raise\<close> of the modelled code and of the built-ins it calls is a value
  \<open>Inl e\<close> of a sum type; a normal return is \<open>Inr x\<close>. \<open>OtherError\<close> stands for
  any exception class not named here (for instance one raised by a user-defined
  \<^verbatim>\<open>__float__\<close> or \<^verbatim>\<open>__str__\<close>).
\<close>

datatype pyexc =
  TypeError | ValueError | OverflowError | ZeroDivisionError
  | InvalidOperation | DecimalOverflow | OtherError

type_synonym 'a result = "pyexc + 'a"

text \<open>\<^verbatim>\<open>try: body  except: handler\<close> with a bare \<^verbatim>\<open>except\<close>: every exception is caught
  and the handler's outcome is the outcome of the statement.\<close>

definition try_except :: "'a result \<Rightarrow> 'a result \<Rightarrow> 'a result" where
  "try_except body handler = (case body of Inl _ \<Rightarrow> handler | Inr x \<Rightarrow> Inr x)"

text \<open>Sequencing: the second computation runs only if the first one returned.\<close>

definition rbind :: "'a result \<Rightarrow> ('a \<Rightarrow> 'b result) \<Rightarrow> 'b result" where
  "rbind m f = (case m of Inl e \<Rightarrow> Inl e | Inr x \<Rightarrow> f x)"


section \<open>Python floats: IEEE 754 binary64 with round-to-nearest, ties-to-even\<close>

text \<open>
  A float is a finite value (\<open>Fin r\<close>; \<open>Fin 0\<close> is \<open>+0.0\<close>), negative zero, an
  infinity or NaN. Every arithmetic operation computes the exact real result and
  rounds it with \<open>rnd\<close> to the nearest binary64 value.
\<close>

datatype pyfloat = Fin real | NegZero | PInf | NInf | NaN

text \<open>Round half to even, to an integer.\<close>

definition rhe :: "real \<Rightarrow> int" where
  "rhe x = (let f = \<lfloor>x\<rfloor>; d = x - of_int f in
     if d < 1/2 then f else if 1/2 < d then f + 1 else if even f then f else f + 1)"

text \<open>The binary exponent of a positive real: \<open>2 powi bexp x \<le> x < 2 powi (bexp x + 1)\<close>.\<close>

definition bexp :: "real \<Rightarrow> int" where
  "bexp x = (if 1 \<le> x then bitlen \<lfloor>x\<rfloor> - 1 else - bitlen (\<lceil>1 / x\<rceil> - 1))"

text \<open>
  Rounding a real to binary64: 53 significant bits, least exponent \<open>-1022\<close>
  (below it the spacing stays \<open>2 powi (-1074)\<close>: subnormal numbers), overflow to
  an infinity from \<open>2 powi 1024\<close> on, and a result that rounds to zero keeps the sign.
\<close>

definition rnd :: "real \<Rightarrow> pyfloat" where
  "rnd x = (if x = 0 then Fin 0 else
     let a = \<bar>x\<bar>; e = max (bexp a) (- 1022); u = 2 powi (e - 52);
         q = rhe (a / u); m = of_int q * u in
     if 2 powi 1024 \<le> m then (if 0 < x then PInf else NInf)
     else if q = 0 then (if 0 < x then Fin 0 else NegZero)
     else Fin (if 0 < x then m else - m))"

text \<open>The spacing of the doubles around a positive real, and the rounded magnitude;
  \<open>rnd\<close> is expressed with them in lemma \<open>rnd_alt\<close>.\<close>

definition ulp :: "real \<Rightarrow> real" where
  "ulp a = 2 powi (max (bexp a) (- 1022) - 52)"

definition rmag :: "real \<Rightarrow> real" where
  "rmag a = of_int (rhe (a / ulp a)) * ulp a"

text \<open>The reals that are binary64 values.\<close>

definition is_double :: "real \<Rightarrow> bool" where
  "is_double r = (r = 0 \<or>
     (let a = \<bar>r\<bar>; e = max (bexp a) (- 1022); y = a / 2 powi (e - 52) in
      of_int \<lfloor>y\<rfloor> = y \<and> a < 2 powi 1024))"

fun valid_float :: "pyfloat \<Rightarrow> bool" where
  "valid_float (Fin r) = is_double r"
| "valid_float _ = True"

fun fval :: "pyfloat \<Rightarrow> real" where
  "fval (Fin r) = r"
| "fval _ = 0"

fun sign_neg :: "pyfloat \<Rightarrow> bool" where
  "sign_neg (Fin r) = (r < 0)"
| "sign_neg NegZero = True"
| "sign_neg NInf = True"
| "sign_neg _ = False"

fun is_inf :: "pyfloat \<Rightarrow> bool" where
  "is_inf PInf = True"
| "is_inf NInf = True"
| "is_inf _ = False"

fun is_zero :: "pyfloat \<Rightarrow> bool" where
  "is_zero (Fin r) = (r = 0)"
| "is_zero NegZero = True"
| "is_zero _ = False"

fun is_finite :: "pyfloat \<Rightarrow> bool" where
  "is_finite (Fin r) = True"
| "is_finite NegZero = True"
| "is_finite _ = False"

fun fneg :: "pyfloat \<Rightarrow> pyfloat" where
  "fneg (Fin r) = (if r = 0 then NegZero else Fin (- r))"
| "fneg NegZero = Fin 0"
| "fneg PInf = NInf"
| "fneg NInf = PInf"
| "fneg NaN = NaN"

text \<open>Addition: \<open>x + (\<plusminus>0) = x\<close>, \<open>(-0) + (-0) = -0\<close>, an exact zero sum is \<open>+0\<close>,
  \<open>inf + (-inf)\<close> is NaN.\<close>

definition fadd :: "pyfloat \<Rightarrow> pyfloat \<Rightarrow> pyfloat" where
  "fadd a b =
    (if a = NaN \<or> b = NaN then NaN
     else if is_inf a then (if is_inf b \<and> b \<noteq> a then NaN else a)
     else if is_inf b then b
     else if is_zero a then (if a = NegZero \<and> b = NegZero then NegZero
                             else if is_zero b then Fin 0 else b)
     else if is_zero b then a
     else rnd (fval a + fval b))"

definition fsub :: "pyfloat \<Rightarrow> pyfloat \<Rightarrow> pyfloat" where
  "fsub a b = fadd a (fneg b)"

text \<open>Multiplication: \<open>inf * 0\<close> is NaN; a zero product carries the xor of the signs.\<close>

definition fmul :: "pyfloat \<Rightarrow> pyfloat \<Rightarrow> pyfloat" where
  "fmul a b =
    (if a = NaN \<or> b = NaN then NaN
     else if is_inf a \<or> is_inf b then
       (if is_zero a \<or> is_zero b then NaN
        else if sign_neg a \<noteq> sign_neg b then NInf else PInf)
     else if is_zero a \<or> is_zero b then
       (if sign_neg a \<noteq> sign_neg b then NegZero else Fin 0)
     else rnd (fval a * fval b))"

text \<open>Comparison: false whenever an operand is NaN; \<open>-0.0 == 0.0\<close>.\<close>

fun lvl :: "pyfloat \<Rightarrow> int" where
  "lvl PInf = 1"
| "lvl NInf = - 1"
| "lvl _ = 0"

definition fle :: "pyfloat \<Rightarrow> pyfloat \<Rightarrow> bool" where
  "fle a b = (a \<noteq> NaN \<and> b \<noteq> NaN \<and> (lvl a < lvl b \<or> (lvl a = lvl b \<and> fval a \<le> fval b)))"

definition flt :: "pyfloat \<Rightarrow> pyfloat \<Rightarrow> bool" where
  "flt a b = (a \<noteq> NaN \<and> b \<noteq> NaN \<and> (lvl a < lvl b \<or> (lvl a = lvl b \<and> fval a < fval b)))"

definition feq :: "pyfloat \<Rightarrow> pyfloat \<Rightarrow> bool" where
  "feq a b = (a \<noteq> NaN \<and> b \<noteq> NaN \<and> lvl a = lvl b \<and> fval a = fval b)"

definition fge :: "pyfloat \<Rightarrow> pyfloat \<Rightarrow> bool" where
  "fge a b = fle b a"

definition fgt :: "pyfloat \<Rightarrow> pyfloat \<Rightarrow> bool" where
  "fgt a b = flt b a"

text \<open>Conversion of an \<^verbatim>\<open>int\<close> to a float (as in \<^verbatim>\<open>float * int\<close> and \<^verbatim>\<open>float(int)\<close>):
  correctly rounded, \<^verbatim>\<open>OverflowError\<close> when the rounded value is out of range.\<close>

definition float_of_int :: "int \<Rightarrow> pyfloat result" where
  "float_of_int n = (case rnd (of_int n) of
     PInf \<Rightarrow> Inl OverflowError | NInf \<Rightarrow> Inl OverflowError | f \<Rightarrow> Inr f)"

text \<open>True division \<^verbatim>\<open>a / b\<close> of two \<^verbatim>\<open>int\<close>s: the correctly rounded quotient.\<close>

definition int_truediv :: "int \<Rightarrow> int \<Rightarrow> pyfloat result" where
  "int_truediv a b =
    (if b = 0 then Inl ZeroDivisionError
     else (case rnd (of_int a / of_int b) of
       PInf \<Rightarrow> Inl OverflowError | NInf \<Rightarrow> Inl OverflowError | f \<Rightarrow> Inr f))"

text \<open>\<^verbatim>\<open>int(x)\<close> of a float: truncation toward zero; an infinity raises
  \<^verbatim>\<open>OverflowError\<close>, NaN raises \<^verbatim>\<open>ValueError\<close>.\<close>

definition trunc :: "real \<Rightarrow> int" where
  "trunc r = (if 0 \<le> r then \<lfloor>r\<rfloor> else \<lceil>r\<rceil>)"

fun int_of_float :: "pyfloat \<Rightarrow> int result" where
  "int_of_float (Fin r) = Inr (trunc r)"
| "int_of_float NegZero = Inr 0"
| "int_of_float PInf = Inl OverflowError"
| "int_of_float NInf = Inl OverflowError"
| "int_of_float NaN = Inl ValueError"

text \<open>\<^verbatim>\<open>round(x, n)\<close> of a float with \<open>n \<ge> 0\<close> digits: infinities and NaN round to
  themselves; a finite value is rounded half-to-even on its exact decimal expansion
  and the decimal result is converted back to the nearest float; a zero result keeps
  the sign; \<^verbatim>\<open>OverflowError\<close> if the decimal result is out of range.\<close>

fun py_round :: "pyfloat \<Rightarrow> nat \<Rightarrow> pyfloat result" where
  "py_round (Fin r) n =
     (let k = rhe (r * 10 ^ n) in
      if k = 0 then Inr (if r < 0 then NegZero else Fin 0)
      else (case rnd (of_int k / 10 ^ n) of
        PInf \<Rightarrow> Inl OverflowError | NInf \<Rightarrow> Inl OverflowError | f \<Rightarrow> Inr f))"
| "py_round f n = Inr f"


section \<open>Strings: the grammars of \<^verbatim>\<open>float(str)\<close> and \<^verbatim>\<open>int(str)\<close>\<close>

text \<open>A string is a list of code points below 256 (an 8-bit \<open>char\<close> each). Both
  conversions strip surrounding whitespace, read an optional sign, and accept single
  underscores between digits. The whitespace they strip is tab, line feed, vertical tab,
  form feed, carriage return, space, and the two code points \<open>0x85\<close> and \<open>0xA0\<close>; the
  only decimal digits below 256 are \<open>0\<close> to \<open>9\<close>.\<close>

definition is_digit :: "char \<Rightarrow> bool" where
  "is_digit c = (c \<in> set ''0123456789'')"

definition digit_val :: "char \<Rightarrow> nat" where
  "digit_val c = of_char c - 48"

definition is_space :: "char \<Rightarrow> bool" where
  "is_space c = (c \<in> set [CHR '' '', CHR 0x09, CHR 0x0A, CHR 0x0B, CHR 0x0C, CHR 0x0D,
                            CHR 0x85, CHR 0xA0])"

definition strip :: "string \<Rightarrow> string" where
  "strip s = rev (dropWhile is_space (rev (dropWhile is_space s)))"

fun take_sign :: "string \<Rightarrow> bool \<times> string" where
  "take_sign [] = (False, [])"
| "take_sign (c # cs) =
     (if c = CHR ''-'' then (True, cs) else if c = CHR ''+'' then (False, cs)
      else (False, c # cs))"

text \<open>\<open>scan_digits acc s\<close> reads the longest digit part: digits, with an underscore
  allowed only between two digits. It returns the digits read and the rest.\<close>

fun scan_digits :: "string \<Rightarrow> string \<Rightarrow> string \<times> string" where
  "scan_digits acc [] = (acc, [])"
| "scan_digits acc (c # cs) =
     (if is_digit c then scan_digits (acc @ [c]) cs
      else if c = CHR ''_'' \<and> acc \<noteq> [] \<and> cs \<noteq> [] \<and> is_digit (hd cs)
        then scan_digits acc cs
      else (acc, c # cs))"

definition digits_val :: "string \<Rightarrow> nat" where
  "digits_val ds = foldl (\<lambda>a c. 10 * a + digit_val c) 0 ds"

definition lower :: "char \<Rightarrow> char" where
  "lower c =
     (if c = CHR ''I'' then CHR ''i'' else if c = CHR ''N'' then CHR ''n''
      else if c = CHR ''F'' then CHR ''f'' else if c = CHR ''T'' then CHR ''t''
      else if c = CHR ''Y'' then CHR ''y'' else if c = CHR ''A'' then CHR ''a'' else c)"

fun parse_exponent :: "string \<Rightarrow> int option" where
  "parse_exponent [] = Some 0"
| "parse_exponent (c # cs) =
     (if c = CHR ''e'' \<or> c = CHR ''E'' then
        (let (neg, r) = take_sign cs; (ds, rest) = scan_digits [] r in
         if ds = [] \<or> rest \<noteq> [] then None
         else Some (if neg then - int (digits_val ds) else int (digits_val ds)))
      else None)"

text \<open>The decimal value \<open>\<plusminus> mant * 10 powi ex\<close>, correctly rounded; overflow gives an
  infinity and a zero keeps the sign, neither is an error.\<close>

definition mk_float :: "bool \<Rightarrow> nat \<Rightarrow> int \<Rightarrow> pyfloat" where
  "mk_float neg mant ex =
     (if mant = 0 then (if neg then NegZero else Fin 0)
      else rnd ((if neg then - 1 else 1) * of_nat mant * 10 powi ex))"

definition parse_float :: "string \<Rightarrow> pyfloat option" where
  "parse_float s0 =
     (let (neg, s) = take_sign (strip s0); l = map lower s in
      if l = ''inf'' \<or> l = ''infinity'' then Some (if neg then NInf else PInf)
      else if l = ''nan'' then Some NaN
      else
        (let (ip, s1) = scan_digits [] s;
             (fp, s2) = (case s1 of [] \<Rightarrow> ([], [])
                         | c # cs \<Rightarrow> if c = CHR ''.'' then scan_digits [] cs else ([], s1))
         in if ip = [] \<and> fp = [] then None
            else (case parse_exponent s2 of None \<Rightarrow> None
                  | Some ex \<Rightarrow> Some (mk_float neg (digits_val (ip @ fp)) (ex - int (length fp))))))"

text \<open>The limit on the decimal digits of an \<^verbatim>\<open>int\<close> converted from or to a string
  (\<^verbatim>\<open>sys.get_int_max_str_digits()\<close>, 4300 unless reconfigured): beyond it \<^verbatim>\<open>int(str)\<close> and
  \<^verbatim>\<open>str(int)\<close> raise \<^verbatim>\<open>ValueError\<close>. \<^verbatim>\<open>float(str)\<close> has no such limit.\<close>

definition int_max_str_digits :: nat where
  "int_max_str_digits = 4300"

text \<open>\<^verbatim>\<open>int(s)\<close>: the digits read are counted with their leading zeros, without the
  underscores.\<close>

definition parse_int :: "string \<Rightarrow> int option" where
  "parse_int s0 =
     (let (neg, s) = take_sign (strip s0); (ds, rest) = scan_digits [] s in
      if ds = [] \<or> rest \<noteq> [] \<or> int_max_str_digits < length ds then None
      else Some (if neg then - int (digits_val ds) else int (digits_val ds)))"

text \<open>\<^verbatim>\<open>str(n)\<close> of an \<^verbatim>\<open>int\<close> within the limit: its decimal digits.\<close>

definition digit_char :: "nat \<Rightarrow> char" where
  "digit_char d = ''0123456789'' ! d"

fun show_nat :: "nat \<Rightarrow> string" where
  "show_nat n = (if n < 10 then [digit_char n]
                 else show_nat (n div 10) @ [digit_char (n mod 10)])"

definition show_int :: "int \<Rightarrow> string" where
  "show_int i = (if i < 0 then CHR ''-'' # show_nat (nat (- i)) else show_nat (nat i))"


section \<open>Python values and the built-in conversions\<close>

text \<open>
  The values a field of an event or user record can hold. \<open>PObj f i s\<close> is an arbitrary
  object, given by the outcomes of \<^verbatim>\<open>float(o)\<close>, \<^verbatim>\<open>int(o)\<close> and \<^verbatim>\<open>str(o)\<close> on it
  (each may raise): a list, a dict, an instance of a user class.
\<close>

datatype pyval =
  PNone | PBool bool | PInt int | PFloat pyfloat | PStr string
  | PObj "pyfloat result" "int result" "string result"

type_synonym pydict = "string \<rightharpoonup> pyval"

fun py_float :: "pyval \<Rightarrow> pyfloat result" where
  "py_float PNone = Inl TypeError"
| "py_float (PBool b) = Inr (Fin (if b then 1 else 0))"
| "py_float (PInt n) = float_of_int n"
| "py_float (PFloat f) = Inr f"
| "py_float (PStr s) = (case parse_float s of None \<Rightarrow> Inl ValueError | Some f \<Rightarrow> Inr f)"
| "py_float (PObj f i s) = f"

fun py_int :: "pyval \<Rightarrow> int result" where
  "py_int PNone = Inl TypeError"
| "py_int (PBool b) = Inr (if b then 1 else 0)"
| "py_int (PInt n) = Inr n"
| "py_int (PFloat f) = int_of_float f"
| "py_int (PStr s) = (case parse_int s of None \<Rightarrow> Inl ValueError | Some n \<Rightarrow> Inr n)"
| "py_int (PObj f i s) = i"

text \<open>\<^verbatim>\<open>str(v)\<close>. The text of a float is CPython's shortest round-trip representation;
  it is the parameter \<open>frepr\<close>. An \<^verbatim>\<open>int\<close> of more than 4300 digits, that is one with
  \<open>10 ^ 4300 \<le> \<bar>n\<bar>\<close>, raises \<^verbatim>\<open>ValueError\<close>.\<close>

fun py_str :: "(pyfloat \<Rightarrow> string) \<Rightarrow> pyval \<Rightarrow> string result" where
  "py_str frepr PNone = Inr ''None''"
| "py_str frepr (PBool b) = Inr (if b then ''True'' else ''False'')"
| "py_str frepr (PInt n) =
     (if 10 ^ int_max_str_digits \<le> \<bar>n\<bar> then Inl ValueError else Inr (show_int n))"
| "py_str frepr (PFloat f) = Inr (frepr f)"
| "py_str frepr (PStr s) = Inr s"
| "py_str frepr (PObj f i s) = s"

text \<open>\<^verbatim>\<open>v == "..."\<close> against a string literal.\<close>

fun eq_str :: "pyval \<Rightarrow> string \<Rightarrow> bool" where
  "eq_str (PStr s) t = (s = t)"
| "eq_str _ t = False"

text \<open>\<^verbatim>\<open>d.get(k, default)\<close>.\<close>

definition dict_get :: "pydict \<Rightarrow> string \<Rightarrow> pyval \<Rightarrow> pyval" where
  "dict_get d k dflt = (case d k of None \<Rightarrow> dflt | Some v \<Rightarrow> v)"


section \<open>Dates: \<^verbatim>\<open>datetime.strptime(s, "%Y-%m-%d")\<close> and \<^verbatim>\<open>(now - created).days\<close>\<close>

record datetime =
  year :: int
  month :: int
  day :: int
  hour :: int
  minute :: int
  second :: int
  microsecond :: int

definition is_leap :: "int \<Rightarrow> bool" where
  "is_leap y = (y mod 4 = 0 \<and> (y mod 100 \<noteq> 0 \<or> y mod 400 = 0))"

definition days_in_month :: "int \<Rightarrow> int \<Rightarrow> int" where
  "days_in_month y m =
     (if m = 2 then (if is_leap y then 29 else 28)
      else if m = 4 \<or> m = 6 \<or> m = 9 \<or> m = 11 then 30 else 31)"

definition days_before_year :: "int \<Rightarrow> int" where
  "days_before_year y = (let y1 = y - 1 in y1 * 365 + y1 div 4 - y1 div 100 + y1 div 400)"

definition days_before_month :: "int \<Rightarrow> int \<Rightarrow> int" where
  "days_before_month y m = sum_list (map (days_in_month y) [1..m - 1])"

definition ymd2ord :: "int \<Rightarrow> int \<Rightarrow> int \<Rightarrow> int" where
  "ymd2ord y m d = days_before_year y + days_before_month y m + d"

text \<open>The invariant of a \<^verbatim>\<open>datetime\<close> object (its constructor enforces it).\<close>

definition valid_datetime :: "datetime \<Rightarrow> bool" where
  "valid_datetime d =
     (1 \<le> year d \<and> year d \<le> 9999 \<and> 1 \<le> month d \<and> month d \<le> 12
      \<and> 1 \<le> day d \<and> day d \<le> days_in_month (year d) (month d)
      \<and> 0 \<le> hour d \<and> hour d < 24 \<and> 0 \<le> minute d \<and> minute d < 60
      \<and> 0 \<le> second d \<and> second d < 60 \<and> 0 \<le> microsecond d \<and> microsecond d < 1000000)"

text \<open>The directive \<^verbatim>\<open>%m\<close> is the regular expression \<^verbatim>\<open>1[0-2]|0[1-9]|[1-9]\<close>, \<^verbatim>\<open>%d\<close> is
  \<^verbatim>\<open>3[0-1]|[1-2]\d|0[1-9]|[1-9]| [1-9]\<close>, \<^verbatim>\<open>%Y\<close> is four digits; the first alternative
  that matches is taken, and the whole string must be consumed.\<close>

fun parse_month :: "string \<Rightarrow> (int \<times> string) option" where
  "parse_month [] = None"
| "parse_month [a] = (if a \<in> set ''123456789'' then Some (int (digit_val a), []) else None)"
| "parse_month (a # b # r) =
     (if a = CHR ''1'' \<and> b \<in> set ''012'' then Some (10 + int (digit_val b), r)
      else if a = CHR ''0'' \<and> b \<in> set ''123456789'' then Some (int (digit_val b), r)
      else if a \<in> set ''123456789'' then Some (int (digit_val a), b # r)
      else None)"

fun parse_day :: "string \<Rightarrow> (int \<times> string) option" where
  "parse_day [] = None"
| "parse_day [a] = (if a \<in> set ''123456789'' then Some (int (digit_val a), []) else None)"
| "parse_day (a # b # r) =
     (if a = CHR ''3'' \<and> b \<in> set ''01'' then Some (30 + int (digit_val b), r)
      else if a \<in> set ''12'' \<and> is_digit b then Some (10 * int (digit_val a) + int (digit_val b), r)
      else if a = CHR ''0'' \<and> b \<in> set ''123456789'' then Some (int (digit_val b), r)
      else if a \<in> set ''123456789'' then Some (int (digit_val a), b # r)
      else if a = CHR '' '' \<and> b \<in> set ''123456789'' then Some (int (digit_val b), r)
      else None)"

fun parse_ymd :: "string \<Rightarrow> (int \<times> int \<times> int) option" where
  "parse_ymd (y1 # y2 # y3 # y4 # s) =
     (if is_digit y1 \<and> is_digit y2 \<and> is_digit y3 \<and> is_digit y4 then
        (case s of
           c # s1 \<Rightarrow>
             if c = CHR ''-'' then
               (case parse_month s1 of
                  Some (m, c' # s2) \<Rightarrow>
                    if c' = CHR ''-'' then
                      (case parse_day s2 of
                         Some (d, []) \<Rightarrow> Some (int (digits_val [y1, y2, y3, y4]), m, d)
                       | _ \<Rightarrow> None)
                    else None
                | _ \<Rightarrow> None)
             else None
         | [] \<Rightarrow> None)
      else None)"
| "parse_ymd _ = None"

text \<open>A string that does not match, a date that does not exist (year 0, 30 February)
  raise \<^verbatim>\<open>ValueError\<close>; an argument that is not a string raises \<^verbatim>\<open>TypeError\<close>.\<close>

fun strptime_ymd :: "pyval \<Rightarrow> datetime result" where
  "strptime_ymd (PStr s) =
     (case parse_ymd s of
        None \<Rightarrow> Inl ValueError
      | Some (y, m, d) \<Rightarrow>
          if 1 \<le> y \<and> 1 \<le> d \<and> d \<le> days_in_month y m
          then Inr \<lparr>year = y, month = m, day = d, hour = 0, minute = 0, second = 0,
                    microsecond = 0\<rparr>
          else Inl ValueError)"
| "strptime_ymd _ = Inl TypeError"

text \<open>\<^verbatim>\<open>(a - b).days\<close> of two naive datetimes: the difference is normalised so that
  seconds and microseconds are non-negative, hence the floor.\<close>

definition delta_days :: "datetime \<Rightarrow> datetime \<Rightarrow> int" where
  "delta_days a b =
     (let dd = ymd2ord (year a) (month a) (day a) - ymd2ord (year b) (month b) (day b);
          ds = (hour a - hour b) * 3600 + (minute a - minute b) * 60 + (second a - second b);
          dus = microsecond a - microsecond b
      in dd + (ds * 1000000 + dus) div 86400000000)"

text \<open>The reference time is a naive datetime (as \<^verbatim>\<open>datetime.utcnow()\<close> returns) or a
  timezone-aware one. \<^verbatim>\<open>strptime\<close> with the format \<^verbatim>\<open>"%Y-%m-%d"\<close> returns a naive datetime,
  and subtracting a naive datetime from an aware one raises \<^verbatim>\<open>TypeError\<close>.\<close>

datatype reftime = Naive datetime | Aware datetime

definition days_since :: "reftime \<Rightarrow> datetime \<Rightarrow> int result" where
  "days_since now created =
     (case now of Naive n \<Rightarrow> Inr (delta_days n created) | Aware n \<Rightarrow> Inl TypeError)"


section \<open>\<^verbatim>\<open>calc_score\<close> (app/score.py)\<close>

text \<open>The float literals of the source, each the double nearest to its decimal text.\<close>

definition lit_0_005 :: pyfloat where "lit_0_005 = rnd (5 / 1000)"
definition lit_1_2 :: pyfloat where "lit_1_2 = rnd (12 / 10)"
definition lit_1_1 :: pyfloat where "lit_1_1 = rnd (11 / 10)"
definition lit_1_0 :: pyfloat where "lit_1_0 = rnd 1"

text \<open>Lines 20-27: \<^verbatim>\<open>float(v)\<close>, else \<^verbatim>\<open>float(str(v))\<close>, else \<^verbatim>\<open>0.0\<close>, each under a bare
  \<^verbatim>\<open>except\<close>.\<close>

definition parse_value :: "(pyfloat \<Rightarrow> string) \<Rightarrow> pyval \<Rightarrow> pyfloat result" where
  "parse_value frepr v =
     try_except (py_float v)
       (try_except (rbind (py_str frepr v) (\<lambda>s. py_float (PStr s)))
          (Inr (Fin 0)))"

text \<open>The fallback chain in the words of the specification, to be compared with
  \<open>parse_value\<close>: the direct float conversion of the value if that succeeds; otherwise the
  float conversion of the value's text if that succeeds; otherwise \<open>0.0\<close>.\<close>

definition fallback_value :: "(pyfloat \<Rightarrow> string) \<Rightarrow> pyval \<Rightarrow> pyfloat" where
  "fallback_value frepr v =
     (case py_float v of
        Inr f \<Rightarrow> f
      | Inl _ \<Rightarrow>
          (case py_str frepr v of
             Inl _ \<Rightarrow> Fin 0
           | Inr s \<Rightarrow> (case py_float (PStr s) of Inr f \<Rightarrow> f | Inl _ \<Rightarrow> Fin 0)))"

text \<open>Lines 30-39: \<^verbatim>\<open>int(w)\<close>, else \<^verbatim>\<open>1\<close>; then the two clamps.\<close>

definition parse_weight :: "pyval \<Rightarrow> int result" where
  "parse_weight w0 =
     rbind (try_except (py_int w0) (Inr 1)) (\<lambda>w.
       let w = (if w < 0 then 0 else w);
           w = (if w = - 0 then 0 else w)
       in Inr w)"

text \<open>Lines 18-42, one iteration: \<^verbatim>\<open>total = total + (v * w)\<close> multiplies a float by an
  \<^verbatim>\<open>int\<close>, which converts the \<^verbatim>\<open>int\<close> to a float first, outside every \<^verbatim>\<open>try\<close>.\<close>

definition event_step :: "(pyfloat \<Rightarrow> string) \<Rightarrow> pyfloat \<Rightarrow> pydict \<Rightarrow> pyfloat result" where
  "event_step frepr tot e =
     rbind (parse_value frepr (dict_get e ''value'' PNone)) (\<lambda>v.
     rbind (parse_weight (dict_get e ''weight'' (PInt 1))) (\<lambda>w.
     rbind (float_of_int w) (\<lambda>wf.
       Inr (fadd tot (fmul v wf)))))"

fun accumulate :: "(pyfloat \<Rightarrow> string) \<Rightarrow> pyfloat \<Rightarrow> pydict list \<Rightarrow> pyfloat result" where
  "accumulate frepr tot [] = Inr tot"
| "accumulate frepr tot (e # es) =
     rbind (event_step frepr tot e) (\<lambda>t. accumulate frepr t es)"

text \<open>Lines 45-60: the bonus; any exception in the \<^verbatim>\<open>try\<close> leaves \<^verbatim>\<open>bonus = 0.0 + 0.0\<close>.\<close>

definition clamp_years :: "int \<Rightarrow> int" where
  "clamp_years y0 =
     (let years = (if 7 \<le> y0 then 6 else y0);
          years = (if years \<le> - 1 then 0 else years)
      in years)"

definition loyalty_bonus :: "pydict \<Rightarrow> reftime \<Rightarrow> pyfloat result" where
  "loyalty_bonus user now =
     try_except
       (rbind (strptime_ymd (dict_get user ''created_at'' (PStr []))) (\<lambda>created.
        rbind (days_since now created) (\<lambda>days.
        rbind (int_truediv days 365) (\<lambda>q.
        rbind (int_of_float q) (\<lambda>years.
        rbind (float_of_int (clamp_years years)) (\<lambda>yf.
          Inr (fmul yf lit_0_005)))))))
       (Inr (fadd (Fin 0) (Fin 0)))"

text \<open>Line 63.\<close>

definition apply_bonus :: "pyfloat \<Rightarrow> pyfloat \<Rightarrow> pyfloat" where
  "apply_bonus tot bonus = fsub tot (fmul tot bonus)"

text \<open>Lines 65-74.\<close>

definition apply_tier :: "pyval \<Rightarrow> pyfloat \<Rightarrow> pyfloat" where
  "apply_tier tier tot =
     (if eq_str tier ''vip'' then fmul tot lit_1_2
      else if eq_str tier ''pro'' then fmul tot lit_1_1
      else fmul tot lit_1_0)"

text \<open>The whole function, for a reference time \<open>now\<close>.\<close>

definition calc_score ::
  "(pyfloat \<Rightarrow> string) \<Rightarrow> pydict list \<Rightarrow> pydict \<Rightarrow> reftime \<Rightarrow> pyfloat result" where
  "calc_score frepr events user now =
     rbind (accumulate frepr (Fin 0) events) (\<lambda>total.
     rbind (loyalty_bonus user now) (\<lambda>bonus.
       let total = apply_bonus total bonus;
           tier = dict_get user ''tier'' PNone;
           total = apply_tier tier total
       in rbind (py_round total 2) (\<lambda>total. py_round total 2)))"

text \<open>Lines 65-78 on the total that the bonus step has left: the tier multiplier and the
  two roundings.\<close>

abbreviation tier_and_round :: "pydict \<Rightarrow> pyfloat \<Rightarrow> pyfloat result" where
  "tier_and_round user t \<equiv>
     rbind (py_round (apply_tier (dict_get user ''tier'' PNone) t) 2) (\<lambda>t. py_round t 2)"

text \<open>Lines 13-14: without \<open>now\<close> the clock is read, which gives a naive datetime.\<close>

definition calc_score_default ::
  "datetime \<Rightarrow> (pyfloat \<Rightarrow> string) \<Rightarrow> pydict list \<Rightarrow> pydict \<Rightarrow> reftime option
     \<Rightarrow> pyfloat result" where
  "calc_score_default utcnow frepr events user now =
     calc_score frepr events user (case now of None \<Rightarrow> Naive utcnow | Some n \<Rightarrow> n)"


section \<open>Sequencing\<close>

text \<open>The handler of a \<^verbatim>\<open>try\<close> and the continuation of a sequence are looked at only once
  the outcome of the first computation is known.\<close>

lemma try_except_cong [cong]:
  "body = body' \<Longrightarrow> try_except body handler = try_except body' handler"
  by simp

lemma rbind_cong [cong]: "m = m' \<Longrightarrow> rbind m f = rbind m' f"
  by simp


section \<open>Properties of rounding\<close>

subsection \<open>Binary exponent and rounding to an integer\<close>

lemma B_pos: "0 < (2::real) powi e" by simp

lemma B_mono: "a \<le> b \<Longrightarrow> (2::real) powi a \<le> 2 powi b"
  by (rule power_int_increasing) simp_all

lemma B_strict_mono: "a < b \<Longrightarrow> (2::real) powi a < 2 powi b"
  by (rule power_int_strict_increasing) simp_all

lemma B_add: "(2::real) powi (a + b) = 2 powi a * 2 powi b"
  by (simp add: power_int_add)

lemma B_diff: "(2::real) powi (a - b) = 2 powi a / 2 powi b"
  by (simp add: power_int_diff)

lemma real_pow_le: "(2::int) ^ n \<le> m \<Longrightarrow> (2::real) ^ n \<le> real_of_int m"
  by (metis of_int_le_iff of_int_numeral of_int_power)

lemma real_le_pow: "m \<le> (2::int) ^ n \<Longrightarrow> real_of_int m \<le> 2 ^ n"
  by (metis of_int_le_iff of_int_numeral of_int_power)

lemma bexp_bounds:
  assumes "0 < x"
  shows "2 powi (bexp x) \<le> x" and "x < 2 powi (bexp x + 1)"
proof -
  show "2 powi (bexp x) \<le> x"
  proof (cases "1 \<le> x")
    case True
    define n where "n = \<lfloor>x\<rfloor>"
    have n: "0 < n" using True by (simp add: n_def)
    have "bitlen n \<ge> 1" using n by (simp add: bitlen_alt_def)
    have "(2::real) ^ nat (bitlen n - 1) \<le> real_of_int n"
      using bitlen_bounds[OF n] by (intro real_pow_le) simp
    also have "\<dots> \<le> x" by (simp add: n_def)
    finally have "2 ^ nat (bitlen n - 1) \<le> x" .
    moreover have "(2::real) powi (bitlen n - 1) = 2 ^ nat (bitlen n - 1)"
      using \<open>bitlen n \<ge> 1\<close> by (simp add: power_int_def)
    ultimately show ?thesis using True by (simp add: bexp_def n_def)
  next
    case False
    define y where "y = 1 / x"
    have y: "1 < y" using False assms by (simp add: y_def)
    define m where "m = \<lceil>y\<rceil> - 1"
    have m: "0 < m" using y unfolding m_def by linarith
    define k where "k = bitlen m"
    have k: "k \<ge> 1" using m by (simp add: k_def bitlen_alt_def)
    have "m < 2 ^ nat k" using bitlen_bounds[OF m] by (simp add: k_def)
    then have "m + 1 \<le> 2 ^ nat k" by simp
    then have "real_of_int (m + 1) \<le> 2 ^ nat k" by (rule real_le_pow)
    moreover have "y \<le> real_of_int (m + 1)" by (simp add: m_def)
    ultimately have "y \<le> 2 ^ nat k" by linarith
    then have "1 / 2 ^ nat k \<le> x" using assms y
      by (simp add: y_def field_simps)
    moreover have "(2::real) powi (- k) = 1 / 2 ^ nat k"
      using k by (simp add: power_int_def field_simps)
    ultimately show ?thesis using False by (simp add: bexp_def y_def m_def k_def)
  qed
  show "x < 2 powi (bexp x + 1)"
  proof (cases "1 \<le> x")
    case True
    define n where "n = \<lfloor>x\<rfloor>"
    have n: "0 < n" using True by (simp add: n_def)
    have bl: "bitlen n \<ge> 1" using n by (simp add: bitlen_alt_def)
    have "n < 2 ^ nat (bitlen n)" using bitlen_bounds[OF n] by simp
    then have "n + 1 \<le> 2 ^ nat (bitlen n)" by simp
    then have "real_of_int (n + 1) \<le> 2 ^ nat (bitlen n)" by (rule real_le_pow)
    moreover have "x < real_of_int (n + 1)" by (simp add: n_def)
    ultimately have "x < 2 ^ nat (bitlen n)" by linarith
    moreover have "(2::real) powi (bitlen n) = 2 ^ nat (bitlen n)"
      using bl by (simp add: power_int_def)
    ultimately show ?thesis using True by (simp add: bexp_def n_def)
  next
    case False
    define y where "y = 1 / x"
    have y: "1 < y" using False assms by (simp add: y_def)
    define m where "m = \<lceil>y\<rceil> - 1"
    have m: "0 < m" using y unfolding m_def by linarith
    define k where "k = bitlen m"
    have k: "k \<ge> 1" using m by (simp add: k_def bitlen_alt_def)
    have "2 ^ nat (k - 1) \<le> m" using bitlen_bounds[OF m] by (simp add: k_def)
    then have "(2::real) ^ nat (k - 1) \<le> real_of_int m" by (rule real_pow_le)
    moreover have "real_of_int m < y" unfolding m_def by linarith
    ultimately have "2 ^ nat (k - 1) < y" by linarith
    then have "x < 1 / 2 ^ nat (k - 1)" using assms y
      by (simp add: y_def field_simps)
    moreover have "(2::real) powi (- k + 1) = 1 / 2 ^ nat (k - 1)"
    proof -
      have "(2::real) powi (- k + 1) = 2 powi (- (k - 1))" by simp
      also have "\<dots> = 1 / 2 powi (k - 1)" by (simp only: power_int_minus_divide)
      also have "\<dots> = 1 / 2 ^ nat (k - 1)" using k by (simp add: power_int_def)
      finally show ?thesis .
    qed
    ultimately show ?thesis using False by (simp add: bexp_def y_def m_def k_def)
  qed
qed

lemma bexp_unique:
  assumes "0 < x" "2 powi e \<le> x" "x < 2 powi (e + 1)"
  shows "bexp x = e"
proof (rule ccontr)
  assume ne: "bexp x \<noteq> e"
  show False
  proof (cases "bexp x < e")
    case True
    then have "2 powi (bexp x + 1) \<le> (2::real) powi e" by (intro B_mono) simp
    with bexp_bounds(2)[OF assms(1)] assms(2) show False by linarith
  next
    case False
    with ne have "e + 1 \<le> bexp x" by simp
    then have "2 powi (e + 1) \<le> (2::real) powi (bexp x)" by (rule B_mono)
    with bexp_bounds(1)[OF assms(1)] assms(3) show False by linarith
  qed
qed

lemma bexp_mono:
  assumes "0 < x" "x \<le> y"
  shows "bexp x \<le> bexp y"
proof (rule ccontr)
  assume "\<not> bexp x \<le> bexp y"
  then have "bexp y + 1 \<le> bexp x" by simp
  then have "2 powi (bexp y + 1) \<le> (2::real) powi (bexp x)" by (rule B_mono)
  moreover have "0 < y" using assms by simp
  ultimately show False
    using bexp_bounds(1)[OF assms(1)] bexp_bounds(2)[OF \<open>0 < y\<close>] assms(2) by linarith
qed

lemma rhe_cases:
  "rhe x = \<lfloor>x\<rfloor> \<or> rhe x = \<lfloor>x\<rfloor> + 1"
  by (simp add: rhe_def Let_def)

lemma rhe_bounds: "\<bar>of_int (rhe x) - x\<bar> \<le> 1/2"
  unfolding rhe_def Let_def by (auto simp: abs_if) linarith+

lemma rhe_of_int [simp]: "rhe (of_int n) = n"
  by (simp add: rhe_def)

lemma rhe_unique: "\<bar>of_int n - x\<bar> < 1/2 \<Longrightarrow> rhe x = n"
  unfolding rhe_def Let_def by (auto simp: abs_if split: if_splits) linarith+

lemma rhe_mono:
  assumes "x \<le> y" shows "rhe x \<le> rhe y"
proof (cases "\<lfloor>x\<rfloor> = \<lfloor>y\<rfloor>")
  case True
  then show ?thesis using assms unfolding rhe_def Let_def by auto
next
  case False
  then have "\<lfloor>x\<rfloor> + 1 \<le> \<lfloor>y\<rfloor>" using floor_mono[OF assms] by linarith
  moreover have "rhe x \<le> \<lfloor>x\<rfloor> + 1" using rhe_cases[of x] by auto
  moreover have "\<lfloor>y\<rfloor> \<le> rhe y" using rhe_cases[of y] by auto
  ultimately show ?thesis by linarith
qed

subsection \<open>The rounded magnitude\<close>


lemma ulp_pos [simp]: "0 < ulp a"
  by (simp add: ulp_def)

lemma ulp_nonneg [simp]: "0 \<le> ulp a"
  by (simp add: ulp_def)

lemma ulp_nz [simp]: "ulp a \<noteq> 0"
  by (simp add: ulp_def)

lemma rhe_zero [simp]: "rhe 0 = 0"
  by (simp add: rhe_def)

lemma rnd_alt:
  "rnd x = (if x = 0 then Fin 0
            else if 2 powi 1024 \<le> rmag \<bar>x\<bar> then (if 0 < x then PInf else NInf)
            else if rmag \<bar>x\<bar> = 0 then (if 0 < x then Fin 0 else NegZero)
            else Fin (if 0 < x then rmag \<bar>x\<bar> else - rmag \<bar>x\<bar>))"
  by (simp add: rnd_def rmag_def ulp_def Let_def)

lemma ulp_mono:
  assumes "0 < a" "a \<le> b" shows "ulp a \<le> ulp b"
  unfolding ulp_def using bexp_mono[OF assms] by (intro B_mono) simp

lemma rhe_nonneg: "0 \<le> x \<Longrightarrow> 0 \<le> rhe x"
  using rhe_mono[of 0 x] by simp

lemma rmag_nonneg: "0 \<le> a \<Longrightarrow> 0 \<le> rmag a"
  unfolding rmag_def by (intro mult_nonneg_nonneg) (simp_all add: rhe_nonneg)

lemma rmag_err: "\<bar>rmag a - a\<bar> \<le> ulp a / 2"
proof -
  have "rmag a - a = (of_int (rhe (a / ulp a)) - a / ulp a) * ulp a"
    by (simp add: rmag_def field_simps)
  then have "\<bar>rmag a - a\<bar> = \<bar>of_int (rhe (a / ulp a)) - a / ulp a\<bar> * ulp a"
    by (simp add: abs_mult)
  also have "\<dots> \<le> (1/2) * ulp a"
    by (intro mult_right_mono rhe_bounds) simp
  finally show ?thesis by simp
qed

lemma ratio_upper:
  assumes "0 < a" shows "a / ulp a < 2 ^ 53"
proof -
  define e where "e = max (bexp a) (- 1022)"
  have "a < 2 powi (bexp a + 1)" using bexp_bounds(2)[OF assms] .
  also have "\<dots> \<le> 2 powi (e + 1)" by (intro B_mono) (simp add: e_def)
  finally have "a / ulp a < 2 powi (e + 1) / ulp a"
    by (intro divide_strict_right_mono) simp_all
  also have "\<dots> = 2 powi ((e + 1) - (e - 52))"
    unfolding ulp_def e_def[symmetric] by (simp only: B_diff)
  also have "\<dots> = 2 ^ 53" by simp
  finally show ?thesis .
qed

lemma ratio_lower:
  assumes "0 < a" "- 1022 \<le> bexp a" shows "2 ^ 52 \<le> a / ulp a"
proof -
  have u: "ulp a = 2 powi (bexp a - 52)" using assms(2) by (simp add: ulp_def max_def)
  have "(2::real) ^ 52 = 2 powi (bexp a - (bexp a - 52))" by simp
  also have "\<dots> = 2 powi (bexp a) / ulp a" unfolding u by (simp only: B_diff)
  also have "\<dots> \<le> a / ulp a"
    by (intro divide_right_mono bexp_bounds(1)[OF assms(1)]) simp
  finally show ?thesis .
qed

lemma rmag_upper:
  assumes "0 < a" shows "rmag a \<le> 2 powi (max (bexp a) (- 1022) + 1)"
proof -
  define e where "e = max (bexp a) (- 1022)"
  have "rhe (a / ulp a) \<le> rhe (of_int (2 ^ 53))"
    using ratio_upper[OF assms] by (intro rhe_mono) simp
  then have "rhe (a / ulp a) \<le> 2 ^ 53" by (simp only: rhe_of_int)
  then have "real_of_int (rhe (a / ulp a)) \<le> 2 ^ 53" by (rule real_le_pow)
  then have "rmag a \<le> 2 ^ 53 * ulp a"
    unfolding rmag_def by (intro mult_right_mono) simp_all
  also have "\<dots> = 2 powi 53 * 2 powi (e - 52)" by (simp add: ulp_def e_def)
  also have "\<dots> = 2 powi (53 + (e - 52))" by (simp only: B_add)
  also have "\<dots> = 2 powi (e + 1)" by (simp add: algebra_simps)
  finally show ?thesis by (simp add: e_def)
qed

lemma rmag_lower:
  assumes "0 < a" "- 1022 \<le> bexp a" shows "2 powi (bexp a) \<le> rmag a"
proof -
  have u: "ulp a = 2 powi (bexp a - 52)" using assms(2) by (simp add: ulp_def max_def)
  have "rhe (of_int (2 ^ 52)) \<le> rhe (a / ulp a)"
    using ratio_lower[OF assms] by (intro rhe_mono) simp
  then have "2 ^ 52 \<le> rhe (a / ulp a)" by (simp only: rhe_of_int)
  then have "(2::real) ^ 52 \<le> real_of_int (rhe (a / ulp a))" by (rule real_pow_le)
  then have "2 ^ 52 * ulp a \<le> rmag a"
    unfolding rmag_def by (intro mult_right_mono) simp_all
  moreover have "2 ^ 52 * ulp a = 2 powi 52 * 2 powi (bexp a - 52)" by (simp add: u)
  moreover have "\<dots> = 2 powi (52 + (bexp a - 52))" by (simp only: B_add)
  ultimately show ?thesis by simp
qed

lemma rmag_mono:
  assumes "0 < a" "a \<le> b" shows "rmag a \<le> rmag b"
proof -
  have b: "0 < b" using assms by simp
  define ea where "ea = max (bexp a) (- 1022)"
  define eb where "eb = max (bexp b) (- 1022)"
  have le: "ea \<le> eb" using bexp_mono[OF assms] by (simp add: ea_def eb_def)
  show ?thesis
  proof (cases "ea = eb")
    case True
    then have u: "ulp a = ulp b" by (simp add: ulp_def ea_def eb_def)
    have "a / ulp b \<le> b / ulp b" using assms by (intro divide_right_mono) simp_all
    then have "rhe (a / ulp b) \<le> rhe (b / ulp b)" by (rule rhe_mono)
    then have "real_of_int (rhe (a / ulp b)) \<le> real_of_int (rhe (b / ulp b))" by simp
    then show ?thesis unfolding rmag_def u by (intro mult_right_mono) simp_all
  next
    case False
    with le have lt: "ea < eb" by simp
    then have eb: "eb = bexp b" "- 1022 \<le> bexp b" by (auto simp: ea_def eb_def max_def split: if_splits)
    have "rmag a \<le> 2 powi (ea + 1)" using rmag_upper[OF assms(1)] by (simp add: ea_def)
    also have "\<dots> \<le> 2 powi (bexp b)" using lt eb by (intro B_mono) simp
    also have "\<dots> \<le> rmag b" by (rule rmag_lower[OF b eb(2)])
    finally show ?thesis .
  qed
qed

lemma rmag_exact:
  assumes "of_int \<lfloor>a / ulp a\<rfloor> = a / ulp a" shows "rmag a = a"
proof -
  have r: "rhe (a / ulp a) = \<lfloor>a / ulp a\<rfloor>"
    by (metis assms rhe_of_int)
  have "rmag a = of_int \<lfloor>a / ulp a\<rfloor> * ulp a" unfolding rmag_def r ..
  also have "\<dots> = (a / ulp a) * ulp a" by (simp only: assms)
  also have "\<dots> = a" by simp
  finally show ?thesis .
qed

lemma rmag_zero [simp]: "rmag 0 = 0"
  by (simp add: rmag_def)

subsection \<open>Rounding is exact on doubles, monotone, and yields doubles\<close>

lemma is_double_alt:
  "is_double r \<longleftrightarrow> (r = 0 \<or> (of_int \<lfloor>\<bar>r\<bar> / ulp \<bar>r\<bar>\<rfloor> = \<bar>r\<bar> / ulp \<bar>r\<bar> \<and> \<bar>r\<bar> < 2 powi 1024))"
  by (simp add: is_double_def ulp_def Let_def)

lemma is_double_minus [simp]: "is_double (- r) = is_double r"
  by (simp add: is_double_alt)

lemma rhe_le_pow53:
  assumes "0 < a" shows "rhe (a / ulp a) \<le> 2 ^ 53"
proof -
  have "rhe (a / ulp a) \<le> rhe (of_int (2 ^ 53))"
    using ratio_upper[OF assms] by (intro rhe_mono) simp
  then show ?thesis by (simp only: rhe_of_int)
qed

lemma rmag_integral:
  assumes a: "0 < a" and m: "0 < rmag a"
  shows "of_int \<lfloor>rmag a / ulp (rmag a)\<rfloor> = rmag a / ulp (rmag a)"
proof -
  define e where "e = max (bexp a) (- 1022)"
  define q where "q = rhe (a / ulp a)"
  define em where "em = max (bexp (rmag a)) (- 1022)"
  have u: "ulp a = 2 powi (e - 52)" by (simp add: ulp_def e_def)
  have um: "ulp (rmag a) = 2 powi (em - 52)" by (simp add: ulp_def em_def)
  have mq: "rmag a = of_int q * 2 powi (e - 52)" by (simp add: rmag_def q_def u)
  have "\<exists>n. rmag a / ulp (rmag a) = real_of_int n"
  proof (cases "em \<le> e")
    case True
    have p: "2 powi (e - 52) / 2 powi (em - 52) = (2::real) ^ nat (e - em)"
    proof -
      have "2 powi (e - 52) / 2 powi (em - 52) = (2::real) powi ((e - 52) - (em - 52))"
        by (simp only: B_diff)
      also have "\<dots> = 2 powi (e - em)" by simp
      also have "\<dots> = 2 ^ nat (e - em)" using True by (simp add: power_int_def)
      finally show ?thesis .
    qed
    have "rmag a / ulp (rmag a) = rmag a / 2 powi (em - 52)" by (simp only: um)
    also have "\<dots> = of_int q * 2 powi (e - 52) / 2 powi (em - 52)" by (simp only: mq)
    also have "\<dots> = of_int q * (2 powi (e - 52) / 2 powi (em - 52))" by simp
    also have "\<dots> = of_int q * 2 ^ nat (e - em)" by (simp only: p)
    finally have "rmag a / ulp (rmag a) = real_of_int (q * 2 ^ nat (e - em))" by simp
    then show ?thesis by blast
  next
    case False
    then have lt: "e < em" by simp
    then have em_eq: "em = bexp (rmag a)" by (auto simp: em_def e_def max_def split: if_splits)
    have "2 powi (e + 1) \<le> (2::real) powi (bexp (rmag a))"
      using lt em_eq by (intro B_mono) simp
    also have "\<dots> \<le> rmag a" by (rule bexp_bounds(1)[OF m])
    finally have ge: "2 powi (e + 1) \<le> rmag a" .
    have "rmag a \<le> 2 powi (e + 1)" using rmag_upper[OF a] by (simp add: e_def)
    with ge have eq: "rmag a = 2 powi (e + 1)" by simp
    have "bexp (rmag a) = e + 1"
      unfolding eq by (rule bexp_unique) (simp_all add: B_strict_mono)
    then have "em = e + 1" using em_eq by simp
    then have "ulp (rmag a) = 2 powi (e + 1 - 52)" by (simp add: um)
    then have "rmag a / ulp (rmag a) = 2 powi (e + 1) / 2 powi (e + 1 - 52)"
      using eq by simp
    also have "\<dots> = (2::real) powi ((e + 1) - (e + 1 - 52))" by (simp only: B_diff)
    also have "\<dots> = real_of_int (2 ^ 52)" by simp
    finally show ?thesis by blast
  qed
  then show ?thesis by auto
qed

lemma rmag_is_double:
  assumes "0 < a" "rmag a < 2 powi 1024" shows "is_double (rmag a)"
proof (cases "rmag a = 0")
  case True then show ?thesis by (simp add: is_double_alt)
next
  case False
  then have m: "0 < rmag a" using rmag_nonneg[of a] assms(1) by simp
  then have "\<bar>rmag a\<bar> = rmag a" by simp
  then show ?thesis
    using rmag_integral[OF assms(1) m] assms(2) by (simp add: is_double_alt)
qed

lemma rnd_nonNaN [simp]: "rnd x \<noteq> NaN"
  by (simp add: rnd_alt)

lemma rnd_zero [simp]: "rnd 0 = Fin 0"
  by (simp add: rnd_alt)

lemma rnd_pos:
  "0 < x \<Longrightarrow> rnd x = (if 2 powi 1024 \<le> rmag x then PInf else Fin (rmag x))"
  by (simp add: rnd_alt)

lemma rnd_minus: "x \<noteq> 0 \<Longrightarrow> rnd (- x) = fneg (rnd x)"
  by (auto simp add: rnd_alt)

lemma rnd_valid: "valid_float (rnd x)"
proof (cases "x = 0")
  case True then show ?thesis by (simp add: is_double_alt)
next
  case False
  then have a: "0 < \<bar>x\<bar>" by simp
  show ?thesis
    using rmag_is_double[OF a] by (auto simp add: rnd_alt)
qed

lemma rnd_exact:
  assumes "is_double r" shows "rnd r = Fin r"
proof (cases "r = 0")
  case True then show ?thesis by simp
next
  case False
  with assms have i: "of_int \<lfloor>\<bar>r\<bar> / ulp \<bar>r\<bar>\<rfloor> = \<bar>r\<bar> / ulp \<bar>r\<bar>" and b: "\<bar>r\<bar> < 2 powi 1024"
    by (simp_all add: is_double_alt)
  have "rmag \<bar>r\<bar> = \<bar>r\<bar>" by (rule rmag_exact[OF i])
  then show ?thesis using False b by (auto simp add: rnd_alt)
qed

lemma fle_fneg: "fle (fneg a) (fneg b) = fle b a"
  by (cases a; cases b) (auto simp add: fle_def)

lemma fle_refl: "a \<noteq> NaN \<Longrightarrow> fle a a"
  by (simp add: fle_def)

lemma fle_trans: "fle a b \<Longrightarrow> fle b c \<Longrightarrow> fle a c"
  by (auto simp add: fle_def)

lemma rnd_pos_sign: "0 < x \<Longrightarrow> 0 \<le> lvl (rnd x) \<and> 0 \<le> fval (rnd x)"
  by (simp add: rnd_pos rmag_nonneg)

lemma rnd_neg_sign: "x < 0 \<Longrightarrow> lvl (rnd x) \<le> 0 \<and> fval (rnd x) \<le> 0"
  using rmag_nonneg[of "- x"] by (auto simp add: rnd_alt)

lemma rnd_mono_pos:
  assumes "0 < x" "x \<le> y" shows "fle (rnd x) (rnd y)"
proof -
  have y: "0 < y" using assms by simp
  have "rmag x \<le> rmag y" by (rule rmag_mono[OF assms])
  then show ?thesis by (auto simp add: rnd_pos[OF assms(1)] rnd_pos[OF y] fle_def)
qed

lemma rnd_mono:
  assumes "x \<le> y" shows "fle (rnd x) (rnd y)"
proof -
  consider "0 < x" | "y < 0" | "x \<le> 0" "0 \<le> y" using assms by linarith
  then show ?thesis
  proof cases
    case 1 then show ?thesis using assms by (rule rnd_mono_pos)
  next
    case 2
    then have "0 < - y" "- y \<le> - x" using assms by simp_all
    then have "fle (rnd (- y)) (rnd (- x))" by (rule rnd_mono_pos)
    moreover have "x \<noteq> 0" "y \<noteq> 0" using 2 assms by simp_all
    ultimately show ?thesis by (simp add: rnd_minus fle_fneg)
  next
    case 3
    have "lvl (rnd x) \<le> 0 \<and> fval (rnd x) \<le> 0"
      using 3(1) rnd_neg_sign[of x] by (cases "x = 0") auto
    moreover have "0 \<le> lvl (rnd y) \<and> 0 \<le> fval (rnd y)"
      using 3(2) rnd_pos_sign[of y] by (cases "y = 0") auto
    ultimately show ?thesis by (auto simp add: fle_def)
  qed
qed


section \<open>Evaluation of the rounding function on numerals\<close>

lemma bitlen_numeral: "bitlen (numeral k) = bitlen (numeral k div 2) + 1"
  by (subst compute_bitlen) simp
lemma bitlen_one: "bitlen 1 = 1"
  by (subst compute_bitlen) simp

lemmas rnd_ev = rnd_def bexp_def rhe_def bitlen_numeral bitlen_one Let_def

lemmas str_ev = parse_float_def parse_int_def strip_def is_space_def is_digit_def lower_def
  digits_val_def digit_val_def mk_float_def int_max_str_digits_def
lemmas date_ev = delta_days_def ymd2ord_def days_before_year_def days_before_month_def
  days_in_month_def is_leap_def
lemmas score_ev = calc_score_def event_step_def parse_value_def parse_weight_def
  loyalty_bonus_def days_since_def apply_bonus_def apply_tier_def clamp_years_def dict_get_def
  try_except_def rbind_def float_of_int_def int_truediv_def trunc_def
  fadd_def fsub_def fmul_def lit_0_005_def lit_1_2_def lit_1_1_def lit_1_0_def

lemma lit_0_005_eq: "lit_0_005 = Fin (5764607523034235 / 1152921504606846976)"
  by (simp add: lit_0_005_def rnd_ev)
lemma lit_1_2_eq: "lit_1_2 = Fin (5404319552844595 / 4503599627370496)"
  by (simp add: lit_1_2_def rnd_ev)
lemma lit_1_1_eq: "lit_1_1 = Fin (2476979795053773 / 2251799813685248)"
  by (simp add: lit_1_1_def rnd_ev)
lemma lit_1_0_eq: "lit_1_0 = Fin 1"
  by (simp add: lit_1_0_def rnd_ev)

lemma clamp_years_range: "0 \<le> clamp_years y \<and> clamp_years y \<le> 6"
  by (simp add: clamp_years_def Let_def)

lemma small_int_cases:
  assumes "0 \<le> k" "k \<le> 6"
  shows "k = 0 \<or> k = 1 \<or> k = 2 \<or> k = 3 \<or> k = 4 \<or> k = 5 \<or> k = (6::int)"
  using assms by arith

lemma float_of_small_eval:
  "float_of_int 0 = Inr (Fin 0)" "float_of_int 1 = Inr (Fin 1)" "float_of_int 2 = Inr (Fin 2)"
  "float_of_int 3 = Inr (Fin 3)" "float_of_int 4 = Inr (Fin 4)" "float_of_int 5 = Inr (Fin 5)"
  "float_of_int 6 = Inr (Fin 6)"
  by (simp_all add: float_of_int_def rnd_ev)

lemma float_of_small:
  assumes "0 \<le> k" "k \<le> 6"
  shows "float_of_int k = Inr (Fin (of_int k))"
  using small_int_cases[OF assms] by (auto simp add: float_of_small_eval)

lemma bonus_eval:
  "fmul (Fin 0) lit_0_005 = Fin 0"
  "fmul (Fin 1) lit_0_005 = Fin (5764607523034235 / 1152921504606846976)"
  "fmul (Fin 2) lit_0_005 = Fin (5764607523034235 / 576460752303423488)"
  "fmul (Fin 3) lit_0_005 = Fin (1080863910568919 / 72057594037927936)"
  "fmul (Fin 4) lit_0_005 = Fin (5764607523034235 / 288230376151711744)"
  "fmul (Fin 5) lit_0_005 = Fin (3602879701896397 / 144115188075855872)"
  "fmul (Fin 6) lit_0_005 = Fin (1080863910568919 / 36028797018963968)"
  by (simp_all add: fmul_def lit_0_005_eq rnd_ev)

lemma nonneg_finI: "is_finite f \<Longrightarrow> \<not> sign_neg f \<Longrightarrow> \<exists>r. f = Fin r \<and> 0 \<le> r"
  by (cases f) auto

lemma bonus_finite:
  assumes "0 \<le> k" "k \<le> 6"
  shows "is_finite (fmul (Fin (of_int k)) lit_0_005) \<and> \<not> sign_neg (fmul (Fin (of_int k)) lit_0_005)"
  using small_int_cases[OF assms] by (elim disjE) (simp_all add: bonus_eval)

lemma bonus_value:
  assumes "0 \<le> k" "k \<le> 6"
  shows "\<exists>r. fmul (Fin (of_int k)) lit_0_005 = Fin r \<and> 0 \<le> r"
  using bonus_finite[OF assms] nonneg_finI by blast

lemma loyalty_bonus_cases:
  "\<exists>k. 0 \<le> k \<and> k \<le> 6 \<and> loyalty_bonus user now = Inr (fmul (Fin (of_int k)) lit_0_005)"
proof (cases "\<exists>y. rbind (strptime_ymd (dict_get user ''created_at'' (PStr []))) (\<lambda>created.
        rbind (days_since now created) (\<lambda>days.
        rbind (int_truediv days 365) int_of_float)) = Inr y")
  case True
  then obtain y where y: "rbind (strptime_ymd (dict_get user ''created_at'' (PStr []))) (\<lambda>created.
        rbind (days_since now created) (\<lambda>days.
        rbind (int_truediv days 365) int_of_float)) = Inr y" by blast
  have "loyalty_bonus user now = Inr (fmul (Fin (of_int (clamp_years y))) lit_0_005)"
    using y float_of_small[of "clamp_years y"] clamp_years_range[of y]
    by (auto simp add: loyalty_bonus_def try_except_def rbind_def split: sum.splits)
  then show ?thesis using clamp_years_range[of y] by blast
next
  case False
  then have "loyalty_bonus user now = Inr (Fin 0)"
    by (auto simp add: loyalty_bonus_def try_except_def rbind_def fadd_def split: sum.splits)
  moreover have "fmul (Fin (of_int 0)) lit_0_005 = Fin 0"
    by (simp add: fmul_def lit_0_005_eq)
  ultimately show ?thesis by (metis order_refl zero_le_numeral)
qed

lemma py_round_zero: "py_round (Fin 0) n = Inr (Fin 0)"
  by (simp add: rhe_def Let_def)

lemma apply_bonus_zero: "0 \<le> r \<Longrightarrow> apply_bonus (Fin 0) (Fin r) = Fin 0"
  by (simp add: apply_bonus_def fsub_def fmul_def fadd_def)

lemma apply_tier_zero: "apply_tier tier (Fin 0) = Fin 0"
  by (simp add: apply_tier_def fmul_def lit_1_2_eq lit_1_1_eq lit_1_0_eq)

text \<open>Claim C7: for every user record and every reference time, \<^verbatim>\<open>calc_score([], user, now)\<close>
  returns exactly \<open>0.0\<close> (positive zero), raising nothing.\<close>

theorem calc_score_empty: "calc_score frepr [] user now = Inr (Fin 0)"
proof -
  obtain k where k: "0 \<le> k" "k \<le> 6"
    and b: "loyalty_bonus user now = Inr (fmul (Fin (of_int k)) lit_0_005)"
    using loyalty_bonus_cases by blast
  obtain r where r: "fmul (Fin (of_int k)) lit_0_005 = Fin r" "0 \<le> r"
    using bonus_value[OF k] by blast
  show ?thesis
    by (simp add: calc_score_def rbind_def b r apply_bonus_zero apply_tier_zero py_round_zero
        del: py_round.simps)
qed


section \<open>A negative weight\<close>

lemma parse_weight_neg: "py_int w = Inr n \<Longrightarrow> n < 0 \<Longrightarrow> parse_weight w = Inr 0"
  by (simp add: parse_weight_def try_except_def rbind_def)

lemma float_of_int_zero: "float_of_int 0 = Inr (Fin 0)"
  by (simp add: float_of_int_def)

lemma fmul_zero_right: "is_finite v \<Longrightarrow> is_zero (fmul v (Fin 0))"
  by (cases v) (auto simp add: fmul_def)

lemma fmul_zero_right_special: "\<not> is_finite v \<Longrightarrow> fmul v (Fin 0) = NaN"
  by (cases v) (auto simp add: fmul_def)

lemma fadd_zero_right:
  "is_zero z \<Longrightarrow> fadd tot z = (if tot = NegZero \<and> z = Fin 0 then Fin 0 else tot)"
  by (cases tot; cases z) (auto simp add: fadd_def)

lemma fadd_nan_right: "fadd tot NaN = NaN"
  by (cases tot) (auto simp add: fadd_def)

text \<open>Claim C6 (amended): an event whose weight parses to a negative integer leaves the
  running total as it is when its parsed value is finite (only a total \<open>-0.0\<close> becomes
  \<open>+0.0\<close>), and makes the total NaN when its parsed value is an infinity or NaN.\<close>

theorem negative_weight_contributes_zero:
  assumes "e ''weight'' = Some w" and "py_int w = Inr n" and "n < 0"
    and "parse_value frepr (dict_get e ''value'' PNone) = Inr v"
  shows "(is_finite v \<longrightarrow>
            event_step frepr tot e = Inr tot
            \<or> (tot = NegZero \<and> event_step frepr tot e = Inr (Fin 0)))
         \<and> (\<not> is_finite v \<longrightarrow> event_step frepr tot e = Inr NaN)"
proof -
  have w: "parse_weight (dict_get e ''weight'' (PInt 1)) = Inr 0"
    using assms(1-3) by (simp add: dict_get_def parse_weight_neg)
  have s: "event_step frepr tot e = Inr (fadd tot (fmul v (Fin 0)))"
    by (simp add: event_step_def rbind_def assms(4) w float_of_int_zero)
  have "event_step frepr tot e = Inr tot
        \<or> (tot = NegZero \<and> event_step frepr tot e = Inr (Fin 0))" if "is_finite v"
    using fadd_zero_right[OF fmul_zero_right[OF that], of tot] by (auto simp add: s)
  moreover have "event_step frepr tot e = Inr NaN" if "\<not> is_finite v"
    by (simp add: s fmul_zero_right_special[OF that] fadd_nan_right)
  ultimately show ?thesis by blast
qed

lemma parse_value_ten: "parse_value frepr (PStr ''10'') = Inr (Fin 10)"
  by (simp add: parse_value_def try_except_def str_ev rnd_ev)

lemma parse_value_inf: "parse_value frepr (PStr ''inf'') = Inr PInf"
  by (simp add: parse_value_def try_except_def str_ev)

lemma parse_value_nan: "parse_value frepr (PStr ''nan'') = Inr NaN"
  by (simp add: parse_value_def try_except_def str_ev)

text \<open>The theorem at the event \<^verbatim>\<open>{"value": "10", "weight": "-5"}\<close> and at the event
  \<^verbatim>\<open>{"value": "nan", "weight": -1.5}\<close>, each with the total \<open>3.0\<close>.\<close>

theorem negative_weight_contributes_zero_witness:
  "([''value'' \<mapsto> PStr ''10'', ''weight'' \<mapsto> PStr ''-5''] ''weight'' = Some (PStr ''-5'')
    \<and> py_int (PStr ''-5'') = Inr (- 5) \<and> (- 5 :: int) < 0
    \<and> parse_value (\<lambda>f. []) (dict_get [''value'' \<mapsto> PStr ''10'', ''weight'' \<mapsto> PStr ''-5''] ''value'' PNone) = Inr (Fin 10)
    \<and> is_finite (Fin 10)
    \<and> event_step (\<lambda>f. []) (Fin 3) [''value'' \<mapsto> PStr ''10'', ''weight'' \<mapsto> PStr ''-5''] = Inr (Fin 3))
   \<and> ([''value'' \<mapsto> PStr ''nan'', ''weight'' \<mapsto> PFloat (Fin (- 3 / 2))] ''weight'' = Some (PFloat (Fin (- 3 / 2)))
    \<and> py_int (PFloat (Fin (- 3 / 2))) = Inr (- 1) \<and> (- 1 :: int) < 0
    \<and> parse_value (\<lambda>f. []) (dict_get [''value'' \<mapsto> PStr ''nan'', ''weight'' \<mapsto> PFloat (Fin (- 3 / 2))] ''value'' PNone) = Inr NaN
    \<and> \<not> is_finite NaN
    \<and> event_step (\<lambda>f. []) (Fin 3) [''value'' \<mapsto> PStr ''nan'', ''weight'' \<mapsto> PFloat (Fin (- 3 / 2))] = Inr NaN)"
proof -
  let ?e = "[''value'' \<mapsto> PStr ''10'', ''weight'' \<mapsto> PStr ''-5'']"
  let ?e' = "[''value'' \<mapsto> PStr ''nan'', ''weight'' \<mapsto> PFloat (Fin (- 3 / 2))]"
  have v: "parse_value (\<lambda>f. []) (dict_get ?e ''value'' PNone) = Inr (Fin 10)"
    by (simp add: dict_get_def parse_value_ten)
  have w: "?e ''weight'' = Some (PStr ''-5'')" by simp
  have i: "py_int (PStr ''-5'') = Inr (- 5)" by (simp add: str_ev int_max_str_digits_def)
  have v': "parse_value (\<lambda>f. []) (dict_get ?e' ''value'' PNone) = Inr NaN"
    by (simp add: dict_get_def parse_value_nan)
  have w': "?e' ''weight'' = Some (PFloat (Fin (- 3 / 2)))" by simp
  have i': "py_int (PFloat (Fin (- 3 / 2))) = Inr (- 1)" by (simp add: trunc_def)
  show ?thesis
    using negative_weight_contributes_zero[of ?e "PStr ''-5''" "- 5" "\<lambda>f. []" "Fin 10" "Fin 3"]
      negative_weight_contributes_zero[of ?e' "PFloat (Fin (- 3 / 2))" "- 1" "\<lambda>f. []" NaN "Fin 3"]
      v w i v' w' i'
    by simp
qed

text \<open>Claim C6 as stated fails for an infinite value: \<open>inf * 0\<close> is NaN, and the
  total \<open>5.0\<close> becomes NaN.\<close>

theorem negative_weight_infinite_value:
  "py_int (PInt (- 1)) = Inr (- 1) \<and> (- 1 :: int) < 0
   \<and> event_step (\<lambda>f. []) (Fin 5) [''value'' \<mapsto> PStr ''inf'', ''weight'' \<mapsto> PInt (- 1)] = Inr NaN
   \<and> Inr NaN \<noteq> (Inr (Fin 5) :: pyfloat result)"
  by (simp add: event_step_def rbind_def dict_get_def parse_value_inf parse_weight_neg
      float_of_int_zero fmul_def fadd_def)


section \<open>The value of an event\<close>

subsection \<open>The text of an integer reads back as that integer\<close>

lemma digit_cases:
  assumes "d < 10"
  shows "d = 0 \<or> d = 1 \<or> d = 2 \<or> d = 3 \<or> d = 4 \<or> d = 5 \<or> d = 6 \<or> d = 7 \<or> d = 8 \<or> d = (9::nat)"
  using assms by arith

lemma digit_char_props:
  assumes "d < 10"
  shows "is_digit (digit_char d)" "digit_val (digit_char d) = d"
  using digit_cases[OF assms]
  by (auto simp add: digit_char_def is_digit_def digit_val_def)

lemma is_digit_props:
  assumes "is_digit c"
  shows "\<not> is_space c" "lower c = c" "c \<noteq> CHR ''i''" "c \<noteq> CHR ''n''" "c \<noteq> CHR ''-''"
    "c \<noteq> CHR ''+''"
  using assms by (auto simp add: is_digit_def is_space_def lower_def)

lemma digits_val_snoc: "digits_val (ds @ [c]) = 10 * digits_val ds + digit_val c"
  by (simp add: digits_val_def)

declare show_nat.simps [simp del]

lemma show_nat_digits: "show_nat m \<noteq> [] \<and> (\<forall>c\<in>set (show_nat m). is_digit c) \<and> digits_val (show_nat m) = m"
proof (induction m rule: show_nat.induct)
  case (1 n)
  show ?case
  proof (cases "n < 10")
    case True
    then show ?thesis
      by (subst (1 2 3) show_nat.simps) (simp add: digit_char_props digits_val_def)
  next
    case False
    have d: "n mod 10 < 10" by simp
    show ?thesis using False 1[OF False] digit_char_props[OF d]
      by (subst (1 2 3) show_nat.simps) (simp add: digits_val_snoc)
  qed
qed

lemma scan_digits_all:
  "\<forall>c\<in>set ds. is_digit c \<Longrightarrow> scan_digits acc ds = (acc @ ds, [])"
  by (induction ds arbitrary: acc) simp_all

lemma strip_id:
  assumes "s \<noteq> []" "\<not> is_space (hd s)" "\<not> is_space (last s)"
  shows "strip s = s"
proof -
  have "dropWhile is_space s = s" using assms(1,2) by (cases s) simp_all
  moreover have "dropWhile is_space (rev s) = rev s"
    using assms(1,3) by (cases "rev s") (simp_all add: last_rev[symmetric] hd_rev)
  ultimately show ?thesis by (simp add: strip_def)
qed

lemma parse_float_digits:
  assumes ne: "ds \<noteq> []" and dg: "\<forall>c\<in>set ds. is_digit c"
  shows "parse_float ds = Some (mk_float False (digits_val ds) 0)"
    and "parse_float (CHR ''-'' # ds) = Some (mk_float True (digits_val ds) 0)"
proof -
  obtain c cs where ds: "ds = c # cs" using ne by (cases ds) auto
  have c: "is_digit c" using dg ds by simp
  have l: "is_digit (last ds)" using dg ne by simp
  have lw: "map lower ds \<noteq> ''inf''" "map lower ds \<noteq> ''infinity''" "map lower ds \<noteq> ''nan''"
    using is_digit_props[OF c] by (auto simp add: ds)
  have s1: "strip ds = ds"
    using is_digit_props(1)[OF c] is_digit_props(1)[OF l] by (intro strip_id) (simp_all add: ds)
  have s2: "strip (CHR ''-'' # ds) = CHR ''-'' # ds"
    using is_digit_props(1)[OF l] ne by (intro strip_id) (simp_all add: is_space_def)
  have t1: "take_sign ds = (False, ds)" using is_digit_props[OF c] by (simp add: ds)
  show "parse_float ds = Some (mk_float False (digits_val ds) 0)"
    using lw by (simp add: parse_float_def s1 t1 scan_digits_all[OF dg] ne)
  show "parse_float (CHR ''-'' # ds) = Some (mk_float True (digits_val ds) 0)"
    using lw by (simp add: parse_float_def s2 scan_digits_all[OF dg] ne)
qed

lemma parse_float_show_int: "parse_float (show_int n) = Some (rnd (of_int n))"
proof (cases "n < 0")
  case True
  define m where "m = nat (- n)"
  have m: "0 < m" "of_nat m = - real_of_int n" using True by (simp_all add: m_def)
  have "parse_float (show_int n) = Some (mk_float True m 0)"
    using show_nat_digits[of m] parse_float_digits(2)[of "show_nat m"] True
    by (simp add: show_int_def m_def)
  also have "mk_float True m 0 = rnd (of_int n)" using m by (simp add: mk_float_def)
  finally show ?thesis .
next
  case False
  define m where "m = nat n"
  have m: "real m = real_of_int n" using False by (simp add: m_def)
  have "parse_float (show_int n) = Some (mk_float False m 0)"
    using show_nat_digits[of m] parse_float_digits(1)[of "show_nat m"] False
    by (simp add: show_int_def m_def)
  also have "mk_float False m 0 = rnd (of_int n)"
    using m by (cases "m = 0") (simp_all add: mk_float_def)
  finally show ?thesis .
qed


subsection \<open>The fallback chain\<close>

lemma rnd_overflow:
  assumes "2 powi 1024 \<le> \<bar>x\<bar>"
  shows "rnd x = (if x < 0 then NInf else PInf)"
proof -
  have p: "(0::real) < 2 powi 1024" by simp
  have b: "bexp (2 powi 1024) = 1024"
    by (rule bexp_unique) (simp_all add: power_int_add)
  have "2 powi bexp (2 powi 1024) \<le> rmag (2 powi 1024)"
  proof (rule rmag_lower)
    show "(0::real) < 2 powi 1024" by (rule p)
    show "- 1022 \<le> bexp (2 powi 1024)" by (simp only: b)
  qed
  also have "\<dots> \<le> rmag \<bar>x\<bar>" using p assms by (rule rmag_mono)
  finally have "2 powi 1024 \<le> rmag \<bar>x\<bar>" by (simp only: b)
  moreover have "x \<noteq> 0" using assms p by auto
  ultimately show ?thesis by (simp add: rnd_alt)
qed

lemma pow_max_digits: "(2::real) powi 1024 \<le> 10 ^ int_max_str_digits"
proof -
  have d: "1024 \<le> int_max_str_digits" by (simp add: int_max_str_digits_def)
  have "(2::real) powi 1024 = 2 ^ 1024" by (simp only: power_int_numeral)
  also have "\<dots> \<le> 2 ^ int_max_str_digits" using d by (intro power_increasing) simp_all
  also have "\<dots> \<le> 10 ^ int_max_str_digits" by (rule power_mono) simp_all
  finally show ?thesis .
qed

lemma parse_value_total: "parse_value frepr v = Inr (fallback_value frepr v)"
  by (simp add: parse_value_def fallback_value_def try_except_def rbind_def
      split: sum.splits option.splits)

lemma fallback_value_int:
  "fallback_value frepr (PInt n) =
     (if \<bar>n\<bar> < 10 ^ int_max_str_digits then rnd (of_int n) else Fin 0)"
proof (cases "\<bar>n\<bar> < 10 ^ int_max_str_digits")
  case True
  then show ?thesis
    by (simp add: fallback_value_def float_of_int_def parse_float_show_int
        split: pyfloat.splits)
next
  case False
  then have "(10::int) ^ int_max_str_digits \<le> \<bar>n\<bar>" by simp
  then have "real_of_int (10 ^ int_max_str_digits) \<le> real_of_int \<bar>n\<bar>"
    by (simp only: of_int_le_iff)
  then have "(10::real) ^ int_max_str_digits \<le> \<bar>of_int n\<bar>" by simp
  then have "rnd (of_int n) = (if real_of_int n < 0 then NInf else PInf)"
    using pow_max_digits by (intro rnd_overflow) linarith
  moreover have "py_str frepr (PInt n) = Inl ValueError" using False by auto
  ultimately show ?thesis using False
    by (simp add: fallback_value_def float_of_int_def del: py_str.simps)
qed

lemma fallback_value_big: "fallback_value frepr (PInt (2 ^ 1024)) = PInf"
proof -
  have d: "1024 < int_max_str_digits" by (simp add: int_max_str_digits_def)
  have "(2::int) ^ 1024 < 2 ^ int_max_str_digits"
    using d by (intro power_strict_increasing) simp_all
  also have "\<dots> \<le> 10 ^ int_max_str_digits" by (rule power_mono) simp_all
  finally have "\<bar>(2::int) ^ 1024\<bar> < 10 ^ int_max_str_digits" by (simp only: power_abs abs_numeral)
  moreover have "(2::real) powi 1024 \<le> \<bar>real_of_int (2 ^ 1024)\<bar>"
    by (simp only: power_int_numeral of_int_power of_int_numeral power_abs abs_numeral order_refl)
  then have "rnd (of_int (2 ^ 1024)) = PInf"
    using rnd_overflow[of "of_int (2 ^ 1024)"] by (simp only: of_int_power of_int_numeral) simp
  ultimately show ?thesis by (simp only: fallback_value_int if_True)
qed

text \<open>Claim C8: the value that an event adds to the total (times its weight) is the direct
  float conversion of the value field if that succeeds, otherwise the float conversion of
  its text if that succeeds, otherwise \<open>0.0\<close>; no error of either conversion or of the
  value's own text conversion escapes. Kind by kind: an absent or null value is \<open>0.0\<close>; a
  boolean is \<open>1.0\<close> or \<open>0.0\<close>; a float is itself; an \<^verbatim>\<open>int\<close> is its nearest double, an
  infinity when it is out of the double range (through its text) and \<open>0.0\<close> when it has more
  than 4300 digits; a string is what \<^verbatim>\<open>float\<close> reads in it, else \<open>0.0\<close>; any other object is
  its own float conversion, else what \<^verbatim>\<open>float\<close> reads in its text, else \<open>0.0\<close>.\<close>

theorem value_fallback_chain:
  "event_step frepr tot e =
     rbind (parse_weight (dict_get e ''weight'' (PInt 1))) (\<lambda>w.
     rbind (float_of_int w) (\<lambda>wf.
       Inr (fadd tot (fmul (fallback_value frepr (dict_get e ''value'' PNone)) wf))))
   \<and> fallback_value frepr PNone = Fin 0
   \<and> fallback_value frepr (PBool b) = Fin (if b then 1 else 0)
   \<and> fallback_value frepr (PFloat f) = f
   \<and> fallback_value frepr (PInt n) = (if \<bar>n\<bar> < 10 ^ int_max_str_digits then rnd (of_int n) else Fin 0)
   \<and> fallback_value frepr (PInt (2 ^ 1024)) = PInf
   \<and> fallback_value frepr (PStr s) = (case parse_float s of Some x \<Rightarrow> x | None \<Rightarrow> Fin 0)
   \<and> fallback_value frepr (PObj (Inr x) i st) = x
   \<and> fallback_value frepr (PObj (Inl ex) i (Inr s)) =
       (case parse_float s of Some x \<Rightarrow> x | None \<Rightarrow> Fin 0)
   \<and> fallback_value frepr (PObj (Inl ex) i (Inl ex')) = Fin 0"
proof -
  have "event_step frepr tot e =
     rbind (parse_weight (dict_get e ''weight'' (PInt 1))) (\<lambda>w.
     rbind (float_of_int w) (\<lambda>wf.
       Inr (fadd tot (fmul (fallback_value frepr (dict_get e ''value'' PNone)) wf))))"
    by (simp add: event_step_def parse_value_total rbind_def)
  moreover have "fallback_value frepr PNone = Fin 0"
    by (simp add: fallback_value_def str_ev)
  moreover have "fallback_value frepr (PBool b) = Fin (if b then 1 else 0)"
    by (simp add: fallback_value_def)
  moreover have "fallback_value frepr (PFloat f) = f"
    by (simp add: fallback_value_def)
  moreover have "fallback_value frepr (PStr s) = (case parse_float s of Some x \<Rightarrow> x | None \<Rightarrow> Fin 0)"
    by (simp add: fallback_value_def split: option.splits)
  moreover have "fallback_value frepr (PObj (Inr x) i st) = x"
    by (simp add: fallback_value_def)
  moreover have "fallback_value frepr (PObj (Inl ex) i (Inr s)) =
       (case parse_float s of Some x \<Rightarrow> x | None \<Rightarrow> Fin 0)"
    by (simp add: fallback_value_def split: option.splits)
  moreover have "fallback_value frepr (PObj (Inl ex) i (Inl ex')) = Fin 0"
    by (simp add: fallback_value_def)
  ultimately show ?thesis using fallback_value_int fallback_value_big by blast
qed


section \<open>The loyalty bonus\<close>

subsection \<open>Dates\<close>

lemma digit_val_le: "is_digit c \<Longrightarrow> digit_val c \<le> 9"
  by (auto simp add: is_digit_def digit_val_def)

lemma digit_val_pos: "c \<in> set ''123456789'' \<Longrightarrow> 1 \<le> digit_val c \<and> digit_val c \<le> 9"
  by (auto simp add: digit_val_def)

lemma digits_val4:
  assumes "is_digit a" "is_digit b" "is_digit c" "is_digit d"
  shows "digits_val [a, b, c, d] \<le> 9999"
  using digit_val_le[OF assms(1)] digit_val_le[OF assms(2)] digit_val_le[OF assms(3)]
    digit_val_le[OF assms(4)]
  by (simp add: digits_val_def)

lemma parse_month_range: "parse_month s = Some (m, r) \<Longrightarrow> 1 \<le> m \<and> m \<le> 12"
proof (induction s rule: parse_month.induct)
  case 1 then show ?case by simp
next
  case (2 a)
  then show ?case using digit_val_pos[of a] by (auto split: if_splits)
next
  case (3 a b r')
  then show ?case using digit_val_pos[of a] digit_val_pos[of b]
    by (auto simp add: digit_val_def split: if_splits)
qed

lemma parse_ymd_range:
  assumes "parse_ymd s = Some (y, m, d)"
  shows "y \<le> 9999 \<and> 1 \<le> m \<and> m \<le> 12"
proof -
  obtain y1 y2 y3 y4 t where s: "s = y1 # y2 # y3 # y4 # t"
    using assms by (cases s rule: parse_ymd.cases) auto
  have dg: "is_digit y1" "is_digit y2" "is_digit y3" "is_digit y4"
    using assms unfolding s by (auto split: if_splits)
  have y: "y = int (digits_val [y1, y2, y3, y4])"
    using assms unfolding s
    by (auto split: if_splits list.splits option.splits prod.splits)
  obtain t1 r where "parse_month t1 = Some (m, r)"
    using assms unfolding s
    by (auto split: if_splits list.splits option.splits prod.splits)
  then have "1 \<le> m \<and> m \<le> 12" by (rule parse_month_range)
  then show ?thesis using digits_val4[OF dg] y by simp
qed

lemma days_in_month_le: "days_in_month y m \<le> 31"
  by (simp add: days_in_month_def)

lemma strptime_valid:
  assumes "strptime_ymd v = Inr c"
  shows "valid_datetime c \<and> hour c = 0 \<and> minute c = 0 \<and> second c = 0 \<and> microsecond c = 0"
proof -
  obtain s where v: "v = PStr s" using assms by (cases v) auto
  obtain y m d where p: "parse_ymd s = Some (y, m, d)"
    using assms unfolding v by (auto split: option.splits)
  have c: "1 \<le> y" "1 \<le> d" "d \<le> days_in_month y m"
    "c = \<lparr>year = y, month = m, day = d, hour = 0, minute = 0, second = 0, microsecond = 0\<rparr>"
    using assms unfolding v by (auto simp add: p split: if_splits)
  show ?thesis using parse_ymd_range[OF p] c by (simp add: valid_datetime_def)
qed

lemma days_before_year_bounds:
  assumes "1 \<le> y" "y \<le> 9999"
  shows "0 \<le> days_before_year y \<and> days_before_year y \<le> 3659268"
proof -
  define y1 where "y1 = y - 1"
  have r: "0 \<le> y1" "y1 \<le> 9998" using assms by (simp_all add: y1_def)
  have a: "y1 div 100 \<le> y1 div 4" using r(1) by (intro zdiv_mono2) simp_all
  have b: "y1 div 400 \<le> y1 div 100" using r(1) by (intro zdiv_mono2) simp_all
  have c: "0 \<le> y1 div 400" using r(1) by simp
  have d: "y1 div 4 \<le> y1" using r(1) zdiv_mono2[of y1 1 4] by simp
  have "days_before_year y = y1 * 365 + y1 div 4 - y1 div 100 + y1 div 400"
    by (simp add: days_before_year_def y1_def Let_def)
  then show ?thesis using a b c d r by linarith
qed

lemma month_cases:
  assumes "1 \<le> m" "m \<le> 12"
  shows "m = 1 \<or> m = 2 \<or> m = 3 \<or> m = 4 \<or> m = 5 \<or> m = 6 \<or> m = 7 \<or> m = 8 \<or> m = 9 \<or> m = 10
         \<or> m = 11 \<or> m = (12::int)"
  using assms by arith

lemma upto_one_numeral: "[1..numeral n] = 1 # [2..numeral n]"
  by (subst upto.simps) simp

lemma days_before_month_bounds:
  assumes "1 \<le> m" "m \<le> 12"
  shows "0 \<le> days_before_month y m \<and> days_before_month y m \<le> 335"
  using month_cases[OF assms]
  by (elim disjE) (simp_all add: days_before_month_def days_in_month_def upto_one_numeral)

lemma ymd2ord_bounds:
  assumes "valid_datetime d"
  shows "1 \<le> ymd2ord (year d) (month d) (day d) \<and> ymd2ord (year d) (month d) (day d) \<le> 3659634"
proof -
  have y: "1 \<le> year d" "year d \<le> 9999" and m: "1 \<le> month d" "month d \<le> 12"
    and dd: "1 \<le> day d" "day d \<le> days_in_month (year d) (month d)"
    using assms by (simp_all add: valid_datetime_def)
  have "day d \<le> 31" using dd(2) days_in_month_le[of "year d" "month d"] by linarith
  then show ?thesis
    using days_before_year_bounds[OF y] days_before_month_bounds[OF m, of "year d"] dd(1)
    by (simp add: ymd2ord_def)
qed

lemma delta_days_bounds:
  assumes "valid_datetime now" "valid_datetime c"
    and "hour c = 0" "minute c = 0" "second c = 0" "microsecond c = 0"
  shows "- 4000000 \<le> delta_days now c \<and> delta_days now c \<le> 4000000"
proof -
  have t: "0 \<le> hour now" "hour now < 24" "0 \<le> minute now" "minute now < 60"
    "0 \<le> second now" "second now < 60" "0 \<le> microsecond now" "microsecond now < 1000000"
    using assms(1) by (simp_all add: valid_datetime_def)
  define sec where "sec = hour now * 3600 + minute now * 60 + second now"
  define x where "x = sec * 1000000 + microsecond now"
  have sec: "0 \<le> sec" "sec \<le> 86399" using t unfolding sec_def by linarith+
  have "0 \<le> sec * 1000000" "sec * 1000000 \<le> 86399 * 1000000" using sec by simp_all
  then have "0 \<le> x \<and> x < 86400000000" using t unfolding x_def by linarith
  then have "x div 86400000000 = 0" by simp
  then have "delta_days now c = ymd2ord (year now) (month now) (day now)
      - ymd2ord (year c) (month c) (day c)"
    by (simp add: delta_days_def Let_def assms(3-6) x_def sec_def)
  then show ?thesis
    using ymd2ord_bounds[OF assms(1)] ymd2ord_bounds[OF assms(2)] by linarith
qed

subsection \<open>Whole years from a float division\<close>

lemma rnd_between:
  assumes "is_double lo" "is_double hi" "lo \<le> x" "x \<le> hi"
  shows "is_finite (rnd x) \<and> lo \<le> fval (rnd x) \<and> fval (rnd x) \<le> hi"
proof -
  have "fle (Fin lo) (rnd x)" using rnd_mono[OF assms(3)] rnd_exact[OF assms(1)] by simp
  moreover have "fle (rnd x) (Fin hi)" using rnd_mono[OF assms(4)] rnd_exact[OF assms(2)] by simp
  ultimately show ?thesis by (cases "rnd x") (auto simp add: fle_def)
qed

lemmas is_double_ev = is_double_def bexp_def bitlen_numeral bitlen_one Let_def

lemma is_double_small:
  "is_double 0" "is_double 1" "is_double 2" "is_double 3" "is_double 4" "is_double 5"
  "is_double 6" "is_double 7" "is_double 16384"
  "is_double (511 / 512)" "is_double (1023 / 512)" "is_double (1535 / 512)"
  "is_double (2047 / 512)" "is_double (2559 / 512)" "is_double (3071 / 512)"
  "is_double (3583 / 512)"
  by (simp_all add: is_double_ev)

lemma int_of_float_finite: "is_finite f \<Longrightarrow> int_of_float f = Inr (trunc (fval f))"
  by (cases f) (simp_all add: trunc_def)

lemma int_truediv_finite:
  "b \<noteq> 0 \<Longrightarrow> is_finite (rnd (of_int a / of_int b)) \<Longrightarrow>
   int_truediv a b = Inr (rnd (of_int a / of_int b))"
  by (cases "rnd (of_int a / of_int b)") (simp_all add: int_truediv_def)

lemma clamp_years_ge7: "7 \<le> n \<Longrightarrow> clamp_years n = 6"
  by (simp add: clamp_years_def)

lemma clamp_years_le0: "n \<le> 0 \<Longrightarrow> clamp_years n = 0"
  by (simp add: clamp_years_def Let_def)

lemma years_in_unit:
  assumes "is_double (of_int k)" "is_double (of_int k + 511 / 512)"
    and "of_int k \<le> q" "q \<le> of_int k + 511 / 512" "0 \<le> k"
  shows "trunc (fval (rnd q)) = k \<and> trunc q = k"
proof -
  have b: "of_int k \<le> fval (rnd q)" "fval (rnd q) \<le> of_int k + 511 / 512"
    using rnd_between[OF assms(1,2,3,4)] by simp_all
  have "\<lfloor>fval (rnd q)\<rfloor> = k" using b by (intro floor_unique) linarith+
  moreover have "\<lfloor>q\<rfloor> = k" using assms(3,4) by (intro floor_unique) linarith+
  moreover have "0 \<le> fval (rnd q)" "0 \<le> q" using b(1) assms(3,5) by simp_all
  ultimately show ?thesis by (simp add: trunc_def)
qed

lemma years_float_exact:
  assumes "- 4000000 \<le> d" "d \<le> 4000000"
  shows "is_finite (rnd (of_int d / 365))
         \<and> clamp_years (trunc (fval (rnd (of_int d / 365)))) = clamp_years (trunc (of_int d / 365))"
proof -
  define q :: real where "q = of_int d / 365"
  have qb: "- 16384 \<le> q" "q \<le> 16384" using assms by (simp_all add: q_def)
  have m: "is_double (- 16384)" using is_double_small(9) by (simp only: is_double_minus)
  have fin: "is_finite (rnd q)" using rnd_between[OF m is_double_small(9) qb] by simp
  have "clamp_years (trunc (fval (rnd q))) = clamp_years (trunc q)"
  proof -
    consider "7 \<le> q" | "q < 0" | "0 \<le> q" "q < 7" by linarith
    then show ?thesis
    proof cases
      case 1
      have "7 \<le> fval (rnd q)" using rnd_between[OF is_double_small(8,9) 1 qb(2)] by simp
      then have "7 \<le> trunc (fval (rnd q))" by (simp add: trunc_def le_floor_iff)
      moreover have "7 \<le> trunc q" using 1 by (simp add: trunc_def le_floor_iff)
      ultimately show ?thesis by (simp add: clamp_years_ge7)
    next
      case 2
      then have "q \<le> 0" by simp
      then have "fval (rnd q) \<le> 0" using rnd_between[OF m is_double_small(1) qb(1)] by simp
      then have "trunc (fval (rnd q)) \<le> 0" by (auto simp add: trunc_def ceiling_le_iff)
      moreover have "trunc q \<le> 0" using 2 by (auto simp add: trunc_def ceiling_le_iff)
      ultimately show ?thesis by (simp add: clamp_years_le0)
    next
      case 3
      define k where "k = d div 365"
      have kq: "k = \<lfloor>q\<rfloor>" unfolding k_def q_def
        using floor_divide_of_int_eq[of d 365, where ?'a = real] by simp
      have k: "0 \<le> k" "k \<le> 6" using 3 unfolding kq by (simp_all add: floor_less_iff)
      have lo: "of_int k \<le> q" unfolding kq by simp
      have "d = 365 * k + d mod 365" unfolding k_def by simp
      moreover have "d mod 365 \<le> 364" using pos_mod_bound[of 365 d] by simp
      ultimately have "d \<le> 365 * k + 364" by linarith
      then have "real_of_int d \<le> 365 * of_int k + 364" by (metis of_int_le_iff of_int_add of_int_mult of_int_numeral)
      then have "q \<le> of_int k + 364 / 365" by (simp add: q_def field_simps)
      then have hi: "q \<le> of_int k + 511 / 512" by simp
      have "trunc (fval (rnd q)) = k \<and> trunc q = k"
        using small_int_cases[OF k] lo hi
        by (elim disjE) (simp_all add: years_in_unit is_double_small)
      then show ?thesis by simp
    qed
  qed
  then show ?thesis using fin by (simp add: q_def)
qed

lemma loyalty_bonus_parse_fail:
  "strptime_ymd (dict_get user ''created_at'' (PStr [])) = Inl err \<Longrightarrow>
   loyalty_bonus user now = Inr (Fin 0)"
  by (simp add: loyalty_bonus_def try_except_def rbind_def fadd_def)

lemma loyalty_bonus_aware:
  "strptime_ymd (dict_get user ''created_at'' (PStr [])) = Inr created \<Longrightarrow>
   loyalty_bonus user (Aware n) = Inr (Fin 0)"
  by (simp add: loyalty_bonus_def days_since_def try_except_def rbind_def fadd_def)

lemma clamp_years_eq: "clamp_years y = (if 7 \<le> y then 6 else if y \<le> - 1 then 0 else y)"
  by (simp add: clamp_years_def Let_def)

lemma loyalty_bonus_parsed:
  assumes "strptime_ymd (dict_get user ''created_at'' (PStr [])) = Inr created"
    and "valid_datetime n"
  shows "loyalty_bonus user (Naive n) =
         Inr (fmul (Fin (of_int (clamp_years (trunc (of_int (delta_days n created) / 365)))))
                lit_0_005)"
proof -
  have v: "valid_datetime created" "hour created = 0" "minute created = 0" "second created = 0"
    "microsecond created = 0"
    using strptime_valid[OF assms(1)] by simp_all
  define d where "d = delta_days n created"
  have db: "- 4000000 \<le> d" "d \<le> 4000000"
    using delta_days_bounds[OF assms(2) v] by (simp_all add: d_def)
  have fin: "is_finite (rnd (of_int d / 365))"
    and cl: "clamp_years (trunc (fval (rnd (of_int d / 365)))) = clamp_years (trunc (of_int d / 365))"
    using years_float_exact[OF db] by simp_all
  have q: "int_truediv d 365 = Inr (rnd (of_int d / 365))"
    using int_truediv_finite[of 365 d] fin by simp
  have i: "int_of_float (rnd (of_int d / 365)) = Inr (trunc (fval (rnd (of_int d / 365))))"
    by (rule int_of_float_finite[OF fin])
  have f: "float_of_int (clamp_years (trunc (of_int d / 365)))
           = Inr (Fin (of_int (clamp_years (trunc (of_int d / 365)))))"
    using clamp_years_range[of "trunc (of_int d / 365)"] by (intro float_of_small) simp_all
  show ?thesis
    unfolding loyalty_bonus_def days_since_def d_def[symmetric]
    by (simp add: try_except_def rbind_def assms(1) q i cl f d_def[symmetric])
qed

lemma apply_bonus_no_bonus:
  "apply_bonus tot (Fin 0) =
     (if is_inf tot then NaN else if tot = NegZero then Fin 0 else tot)"
  by (cases tot) (auto simp add: apply_bonus_def fsub_def fmul_def fadd_def)

lemma calc_score_after_bonus:
  assumes "accumulate frepr (Fin 0) events = Inr tot" and "loyalty_bonus user now = Inr bonus"
  shows "calc_score frepr events user now = tier_and_round user (apply_bonus tot bonus)"
  by (simp add: calc_score_def assms rbind_def Let_def del: py_round.simps)

text \<open>Claim C3 (amended): let \<open>tot\<close> be the total accumulated over the events. If
  \<open>created_at\<close> does not parse as a date, or if it parses and the reference time is
  timezone-aware (the subtraction raises \<^verbatim>\<open>TypeError\<close>), the bonus is \<open>0.0\<close> and the bonus step
  leaves \<open>tot\<close> as it is, except that \<open>-0.0\<close> becomes \<open>+0.0\<close> and an infinite total becomes
  NaN. If it parses and the reference time is a naive datetime, the bonus is
  \<open>years * 0.005\<close>, where \<open>years\<close> is the exact quotient \<open>days / 365\<close> truncated toward zero,
  then 6 if it is at least 7 and 0 if it is at most -1; the bonus step replaces the total
  by \<open>tot - tot * bonus\<close>. In each case \<^verbatim>\<open>calc_score\<close> returns the tier multiplier and the two
  roundings applied to that total.\<close>

theorem loyalty_bonus_step:
  assumes "accumulate frepr (Fin 0) events = Inr tot"
  shows
   "(strptime_ymd (dict_get user ''created_at'' (PStr [])) = Inl err \<longrightarrow>
       loyalty_bonus user now = Inr (Fin 0)
       \<and> calc_score frepr events user now =
           tier_and_round user
             (if is_inf tot then NaN else if tot = NegZero then Fin 0 else tot))
    \<and> (strptime_ymd (dict_get user ''created_at'' (PStr [])) = Inr created
         \<and> now = Aware n \<longrightarrow>
       loyalty_bonus user now = Inr (Fin 0)
       \<and> calc_score frepr events user now =
           tier_and_round user
             (if is_inf tot then NaN else if tot = NegZero then Fin 0 else tot))
    \<and> (strptime_ymd (dict_get user ''created_at'' (PStr [])) = Inr created
         \<and> now = Naive n \<and> valid_datetime n \<longrightarrow>
       (let y = trunc (of_int (delta_days n created) / 365);
            years = (if 7 \<le> y then 6 else if y \<le> - 1 then 0 else y);
            bonus = fmul (Fin (of_int years)) (rnd (5 / 1000))
        in loyalty_bonus user now = Inr bonus
           \<and> calc_score frepr events user now =
               tier_and_round user (fsub tot (fmul tot bonus))))"
proof (intro conjI impI)
  assume f: "strptime_ymd (dict_get user ''created_at'' (PStr [])) = Inl err"
  show b: "loyalty_bonus user now = Inr (Fin 0)" by (rule loyalty_bonus_parse_fail[OF f])
  show "calc_score frepr events user now =
      tier_and_round user (if is_inf tot then NaN else if tot = NegZero then Fin 0 else tot)"
    by (simp only: calc_score_after_bonus[OF assms b] apply_bonus_no_bonus)
next
  assume p: "strptime_ymd (dict_get user ''created_at'' (PStr [])) = Inr created \<and> now = Aware n"
  show b: "loyalty_bonus user now = Inr (Fin 0)" using p loyalty_bonus_aware by simp
  show "calc_score frepr events user now =
      tier_and_round user (if is_inf tot then NaN else if tot = NegZero then Fin 0 else tot)"
    by (simp only: calc_score_after_bonus[OF assms b] apply_bonus_no_bonus)
next
  assume p: "strptime_ymd (dict_get user ''created_at'' (PStr [])) = Inr created
     \<and> now = Naive n \<and> valid_datetime n"
  define y where "y = trunc (of_int (delta_days n created) / 365)"
  define bonus where
    "bonus = fmul (Fin (of_int (if 7 \<le> y then 6 else if y \<le> - 1 then 0 else y))) (rnd (5 / 1000))"
  have b: "loyalty_bonus user now = Inr bonus"
    using p loyalty_bonus_parsed[of user created n]
    by (simp add: bonus_def y_def clamp_years_eq lit_0_005_def)
  have "calc_score frepr events user now = tier_and_round user (fsub tot (fmul tot bonus))"
    by (simp only: calc_score_after_bonus[OF assms b] apply_bonus_def)
  then show "let y = trunc (of_int (delta_days n created) / 365);
            years = (if 7 \<le> y then 6 else if y \<le> - 1 then 0 else y);
            bonus = fmul (Fin (of_int years)) (rnd (5 / 1000))
        in loyalty_bonus user now = Inr bonus
           \<and> calc_score frepr events user now =
               tier_and_round user (fsub tot (fmul tot bonus))"
    using b unfolding Let_def bonus_def y_def by simp
qed


lemma strptime_examples:
  "strptime_ymd (dict_get [''created_at'' \<mapsto> PStr ''bad-date''] ''created_at'' (PStr [])) = Inl ValueError"
  "strptime_ymd (dict_get [''created_at'' \<mapsto> PStr ''2018-01-01''] ''created_at'' (PStr []))
     = Inr \<lparr>year = 2018, month = 1, day = 1, hour = 0, minute = 0, second = 0, microsecond = 0\<rparr>"
  "strptime_ymd (dict_get [''created_at'' \<mapsto> PStr ''2020-01-01''] ''created_at'' (PStr []))
     = Inr \<lparr>year = 2020, month = 1, day = 1, hour = 0, minute = 0, second = 0, microsecond = 0\<rparr>"
  "strptime_ymd (dict_get [''created_at'' \<mapsto> PStr ''2026-06-01''] ''created_at'' (PStr []))
     = Inr \<lparr>year = 2026, month = 6, day = 1, hour = 0, minute = 0, second = 0, microsecond = 0\<rparr>"
  by (simp_all add: dict_get_def is_digit_def digits_val_def digit_val_def days_in_month_def)

lemma years_examples:
  "trunc (of_int (delta_days
      \<lparr>year = 2025, month = 1, day = 1, hour = 0, minute = 0, second = 0, microsecond = 0\<rparr>
      \<lparr>year = 2018, month = 1, day = 1, hour = 0, minute = 0, second = 0, microsecond = 0\<rparr>) / 365) = 7"
  "trunc (of_int (delta_days
      \<lparr>year = 2025, month = 1, day = 1, hour = 0, minute = 0, second = 0, microsecond = 0\<rparr>
      \<lparr>year = 2020, month = 1, day = 1, hour = 0, minute = 0, second = 0, microsecond = 0\<rparr>) / 365) = 5"
  "trunc (of_int (delta_days
      \<lparr>year = 2025, month = 1, day = 1, hour = 0, minute = 0, second = 0, microsecond = 0\<rparr>
      \<lparr>year = 2026, month = 6, day = 1, hour = 0, minute = 0, second = 0, microsecond = 0\<rparr>) / 365) = - 1"
  by (simp_all add: date_ev trunc_def upto_one_numeral)

lemma accumulate_hundred:
  "accumulate frepr (Fin 0) [[''value'' \<mapsto> PStr ''100'', ''weight'' \<mapsto> PStr ''1'']] = Inr (Fin 100)"
  by (simp add: event_step_def parse_value_def parse_weight_def dict_get_def try_except_def
      rbind_def float_of_int_def fadd_def fmul_def int_max_str_digits_def str_ev rnd_ev)

lemma tier_and_round_examples:
  "dict_get user ''tier'' PNone = PNone \<Longrightarrow> tier_and_round user (Fin 100) = Inr (Fin 100)"
  "dict_get user ''tier'' PNone = PNone \<Longrightarrow>
     tier_and_round user (fsub (Fin 100) (fmul (Fin 100) (fmul (Fin 6) lit_0_005))) = Inr (Fin 97)"
  "dict_get user ''tier'' PNone = PNone \<Longrightarrow>
     tier_and_round user (fsub (Fin 100) (fmul (Fin 100) (fmul (Fin 5) lit_0_005))) = Inr (Fin (195 / 2))"
  "dict_get user ''tier'' PNone = PNone \<Longrightarrow>
     tier_and_round user (fsub (Fin 100) (fmul (Fin 100) (fmul (Fin 0) lit_0_005))) = Inr (Fin 100)"
  by (simp_all add: apply_tier_def rbind_def fsub_def fadd_def fmul_def lit_1_0_eq lit_0_005_eq rnd_ev)


text \<open>The theorem with the single event \<^verbatim>\<open>{"value": "100", "weight": "1"}\<close> (total \<open>100.0\<close>),
  no tier, and the reference time 2025-01-01T00:00:00: at \<^verbatim>\<open>created_at = "bad-date"\<close>
  (score \<open>100.0\<close>); at \<^verbatim>\<open>"2018-01-01"\<close> with an aware reference time (score \<open>100.0\<close>); and with
  the naive reference time at \<^verbatim>\<open>"2018-01-01"\<close> (2557 days, 7 years, clamped to 6, score
  \<open>97.0\<close>), at \<^verbatim>\<open>"2020-01-01"\<close> (1827 days, 5 years, score \<open>97.5\<close>) and at \<^verbatim>\<open>"2026-06-01"\<close>
  (-516 days, -1 year, clamped to 0, score \<open>100.0\<close>).\<close>

theorem loyalty_bonus_step_witness:
  "accumulate (\<lambda>f. []) (Fin 0) [[''value'' \<mapsto> PStr ''100'', ''weight'' \<mapsto> PStr ''1'']] = Inr (Fin 100)
   \<and> (strptime_ymd (dict_get [''created_at'' \<mapsto> PStr ''bad-date''] ''created_at'' (PStr [])) = Inl ValueError
      \<and> loyalty_bonus [''created_at'' \<mapsto> PStr ''bad-date''] (Naive \<lparr>year = 2025, month = 1, day = 1, hour = 0, minute = 0, second = 0, microsecond = 0\<rparr>) = Inr (Fin 0)
      \<and> calc_score (\<lambda>f. []) [[''value'' \<mapsto> PStr ''100'', ''weight'' \<mapsto> PStr ''1'']] [''created_at'' \<mapsto> PStr ''bad-date''] (Naive \<lparr>year = 2025, month = 1, day = 1, hour = 0, minute = 0, second = 0, microsecond = 0\<rparr>) = Inr (Fin 100))
   \<and> (strptime_ymd (dict_get [''created_at'' \<mapsto> PStr ''2018-01-01''] ''created_at'' (PStr [])) = Inr \<lparr>year = 2018, month = 1, day = 1, hour = 0, minute = 0, second = 0, microsecond = 0\<rparr>
      \<and> loyalty_bonus [''created_at'' \<mapsto> PStr ''2018-01-01''] (Aware \<lparr>year = 2025, month = 1, day = 1, hour = 0, minute = 0, second = 0, microsecond = 0\<rparr>) = Inr (Fin 0)
      \<and> calc_score (\<lambda>f. []) [[''value'' \<mapsto> PStr ''100'', ''weight'' \<mapsto> PStr ''1'']] [''created_at'' \<mapsto> PStr ''2018-01-01''] (Aware \<lparr>year = 2025, month = 1, day = 1, hour = 0, minute = 0, second = 0, microsecond = 0\<rparr>) = Inr (Fin 100))
   \<and> (strptime_ymd (dict_get [''created_at'' \<mapsto> PStr ''2018-01-01''] ''created_at'' (PStr [])) = Inr \<lparr>year = 2018, month = 1, day = 1, hour = 0, minute = 0, second = 0, microsecond = 0\<rparr>
      \<and> valid_datetime \<lparr>year = 2025, month = 1, day = 1, hour = 0, minute = 0, second = 0, microsecond = 0\<rparr>
      \<and> trunc (of_int (delta_days \<lparr>year = 2025, month = 1, day = 1, hour = 0, minute = 0, second = 0, microsecond = 0\<rparr> \<lparr>year = 2018, month = 1, day = 1, hour = 0, minute = 0, second = 0, microsecond = 0\<rparr>) / 365) = 7
      \<and> loyalty_bonus [''created_at'' \<mapsto> PStr ''2018-01-01''] (Naive \<lparr>year = 2025, month = 1, day = 1, hour = 0, minute = 0, second = 0, microsecond = 0\<rparr>) = Inr (fmul (Fin 6) (rnd (5 / 1000)))
      \<and> calc_score (\<lambda>f. []) [[''value'' \<mapsto> PStr ''100'', ''weight'' \<mapsto> PStr ''1'']] [''created_at'' \<mapsto> PStr ''2018-01-01''] (Naive \<lparr>year = 2025, month = 1, day = 1, hour = 0, minute = 0, second = 0, microsecond = 0\<rparr>) = Inr (Fin 97))
   \<and> (strptime_ymd (dict_get [''created_at'' \<mapsto> PStr ''2020-01-01''] ''created_at'' (PStr [])) = Inr \<lparr>year = 2020, month = 1, day = 1, hour = 0, minute = 0, second = 0, microsecond = 0\<rparr>
      \<and> valid_datetime \<lparr>year = 2025, month = 1, day = 1, hour = 0, minute = 0, second = 0, microsecond = 0\<rparr>
      \<and> trunc (of_int (delta_days \<lparr>year = 2025, month = 1, day = 1, hour = 0, minute = 0, second = 0, microsecond = 0\<rparr> \<lparr>year = 2020, month = 1, day = 1, hour = 0, minute = 0, second = 0, microsecond = 0\<rparr>) / 365) = 5
      \<and> loyalty_bonus [''created_at'' \<mapsto> PStr ''2020-01-01''] (Naive \<lparr>year = 2025, month = 1, day = 1, hour = 0, minute = 0, second = 0, microsecond = 0\<rparr>) = Inr (fmul (Fin 5) (rnd (5 / 1000)))
      \<and> calc_score (\<lambda>f. []) [[''value'' \<mapsto> PStr ''100'', ''weight'' \<mapsto> PStr ''1'']] [''created_at'' \<mapsto> PStr ''2020-01-01''] (Naive \<lparr>year = 2025, month = 1, day = 1, hour = 0, minute = 0, second = 0, microsecond = 0\<rparr>) = Inr (Fin (195 / 2)))
   \<and> (strptime_ymd (dict_get [''created_at'' \<mapsto> PStr ''2026-06-01''] ''created_at'' (PStr [])) = Inr \<lparr>year = 2026, month = 6, day = 1, hour = 0, minute = 0, second = 0, microsecond = 0\<rparr>
      \<and> valid_datetime \<lparr>year = 2025, month = 1, day = 1, hour = 0, minute = 0, second = 0, microsecond = 0\<rparr>
      \<and> trunc (of_int (delta_days \<lparr>year = 2025, month = 1, day = 1, hour = 0, minute = 0, second = 0, microsecond = 0\<rparr> \<lparr>year = 2026, month = 6, day = 1, hour = 0, minute = 0, second = 0, microsecond = 0\<rparr>) / 365) = - 1
      \<and> loyalty_bonus [''created_at'' \<mapsto> PStr ''2026-06-01''] (Naive \<lparr>year = 2025, month = 1, day = 1, hour = 0, minute = 0, second = 0, microsecond = 0\<rparr>) = Inr (fmul (Fin 0) (rnd (5 / 1000)))
      \<and> calc_score (\<lambda>f. []) [[''value'' \<mapsto> PStr ''100'', ''weight'' \<mapsto> PStr ''1'']] [''created_at'' \<mapsto> PStr ''2026-06-01''] (Naive \<lparr>year = 2025, month = 1, day = 1, hour = 0, minute = 0, second = 0, microsecond = 0\<rparr>) = Inr (Fin 100))"
proof -
  let ?now = "\<lparr>year = 2025, month = 1, day = 1, hour = 0, minute = 0, second = 0, microsecond = 0\<rparr>"
  let ?ev = "[[''value'' \<mapsto> PStr ''100'', ''weight'' \<mapsto> PStr ''1'']]"
  have v: "valid_datetime ?now" by (simp add: valid_datetime_def days_in_month_def)
  have t: "dict_get [''created_at'' \<mapsto> PStr ''bad-date''] ''tier'' PNone = PNone"
    "dict_get [''created_at'' \<mapsto> PStr ''2018-01-01''] ''tier'' PNone = PNone"
    "dict_get [''created_at'' \<mapsto> PStr ''2020-01-01''] ''tier'' PNone = PNone"
    "dict_get [''created_at'' \<mapsto> PStr ''2026-06-01''] ''tier'' PNone = PNone"
    by (simp_all add: dict_get_def)
  note ex = strptime_examples years_examples v
    tier_and_round_examples(1)[OF t(1)] tier_and_round_examples[OF t(2)]
    tier_and_round_examples[OF t(3)] tier_and_round_examples[OF t(4)]
  have a: "accumulate (\<lambda>f. []) (Fin 0) ?ev = Inr (Fin 100)" by (rule accumulate_hundred)
  have 1: "loyalty_bonus [''created_at'' \<mapsto> PStr ''bad-date''] (Naive ?now) = Inr (Fin 0)
      \<and> calc_score (\<lambda>f. []) ?ev [''created_at'' \<mapsto> PStr ''bad-date''] (Naive ?now) = Inr (Fin 100)"
    using loyalty_bonus_step[OF a, folded lit_0_005_def, where user = "[''created_at'' \<mapsto> PStr ''bad-date'']" and err = ValueError
        and now = "Naive ?now" and created = "?now" and n = "?now"]
    by (simp add: ex del: py_round.simps)
  have 2: "loyalty_bonus [''created_at'' \<mapsto> PStr ''2018-01-01''] (Aware ?now) = Inr (Fin 0)
      \<and> calc_score (\<lambda>f. []) ?ev [''created_at'' \<mapsto> PStr ''2018-01-01''] (Aware ?now) = Inr (Fin 100)"
    using loyalty_bonus_step[OF a, folded lit_0_005_def, where user = "[''created_at'' \<mapsto> PStr ''2018-01-01'']" and err = ValueError
        and now = "Aware ?now" and created = "\<lparr>year = 2018, month = 1, day = 1, hour = 0, minute = 0, second = 0, microsecond = 0\<rparr>" and n = "?now"]
    by (simp add: ex del: py_round.simps)
  have 3: "loyalty_bonus [''created_at'' \<mapsto> PStr ''2018-01-01''] (Naive ?now) = Inr (fmul (Fin 6) lit_0_005)
      \<and> calc_score (\<lambda>f. []) ?ev [''created_at'' \<mapsto> PStr ''2018-01-01''] (Naive ?now) = Inr (Fin 97)"
    using loyalty_bonus_step[OF a, folded lit_0_005_def, where user = "[''created_at'' \<mapsto> PStr ''2018-01-01'']" and err = ValueError
        and now = "Naive ?now" and created = "\<lparr>year = 2018, month = 1, day = 1, hour = 0, minute = 0, second = 0, microsecond = 0\<rparr>" and n = "?now"]
    by (simp add: ex Let_def del: py_round.simps)
  have 4: "loyalty_bonus [''created_at'' \<mapsto> PStr ''2020-01-01''] (Naive ?now) = Inr (fmul (Fin 5) lit_0_005)
      \<and> calc_score (\<lambda>f. []) ?ev [''created_at'' \<mapsto> PStr ''2020-01-01''] (Naive ?now) = Inr (Fin (195 / 2))"
    using loyalty_bonus_step[OF a, folded lit_0_005_def, where user = "[''created_at'' \<mapsto> PStr ''2020-01-01'']" and err = ValueError
        and now = "Naive ?now" and created = "\<lparr>year = 2020, month = 1, day = 1, hour = 0, minute = 0, second = 0, microsecond = 0\<rparr>" and n = "?now"]
    by (simp add: ex Let_def del: py_round.simps)
  have 5: "loyalty_bonus [''created_at'' \<mapsto> PStr ''2026-06-01''] (Naive ?now) = Inr (fmul (Fin 0) lit_0_005)
      \<and> calc_score (\<lambda>f. []) ?ev [''created_at'' \<mapsto> PStr ''2026-06-01''] (Naive ?now) = Inr (Fin 100)"
    using loyalty_bonus_step[OF a, folded lit_0_005_def, where user = "[''created_at'' \<mapsto> PStr ''2026-06-01'']" and err = ValueError
        and now = "Naive ?now" and created = "\<lparr>year = 2026, month = 6, day = 1, hour = 0, minute = 0, second = 0, microsecond = 0\<rparr>" and n = "?now"]
    by (simp add: ex Let_def del: py_round.simps)
  show ?thesis using a 1 2 3 4 5 unfolding lit_0_005_def by (simp only: ex simp_thms)
qed

text \<open>Claim C3 as stated fails in two ways. For an infinite total: with
  \<^verbatim>\<open>created_at = "bad-date"\<close> and the single event \<^verbatim>\<open>{"value": "inf"}\<close> the accumulated total is
  \<open>inf\<close>, the bonus is \<open>0.0\<close>, \<open>inf - inf * 0.0\<close> is NaN and the score is NaN, not \<open>inf\<close>. For
  a timezone-aware reference time: \<^verbatim>\<open>created_at = "2018-01-01"\<close> parses and lies 7 years
  before 2025-01-01, but the subtraction raises \<^verbatim>\<open>TypeError\<close> and the bonus is \<open>0.0\<close>, not
  \<open>6 * 0.005\<close>.\<close>

theorem loyalty_bonus_infinite_total:
  "strptime_ymd (dict_get [''created_at'' \<mapsto> PStr ''bad-date''] ''created_at'' (PStr [])) = Inl ValueError
   \<and> accumulate (\<lambda>f. []) (Fin 0) [[''value'' \<mapsto> PStr ''inf'']] = Inr PInf
   \<and> loyalty_bonus [''created_at'' \<mapsto> PStr ''bad-date''] (Naive \<lparr>year = 2025, month = 1, day = 1, hour = 0, minute = 0, second = 0, microsecond = 0\<rparr>) = Inr (Fin 0)
   \<and> apply_bonus PInf (Fin 0) = NaN \<and> NaN \<noteq> PInf
   \<and> calc_score (\<lambda>f. []) [[''value'' \<mapsto> PStr ''inf'']] [''created_at'' \<mapsto> PStr ''bad-date''] (Naive \<lparr>year = 2025, month = 1, day = 1, hour = 0, minute = 0, second = 0, microsecond = 0\<rparr>) = Inr NaN
   \<and> strptime_ymd (dict_get [''created_at'' \<mapsto> PStr ''2018-01-01''] ''created_at'' (PStr [])) = Inr \<lparr>year = 2018, month = 1, day = 1, hour = 0, minute = 0, second = 0, microsecond = 0\<rparr>
   \<and> loyalty_bonus [''created_at'' \<mapsto> PStr ''2018-01-01''] (Aware \<lparr>year = 2025, month = 1, day = 1, hour = 0, minute = 0, second = 0, microsecond = 0\<rparr>) = Inr (Fin 0)
   \<and> fmul (Fin 6) (rnd (5 / 1000)) = Fin (1080863910568919 / 36028797018963968)
   \<and> Fin 0 \<noteq> Fin (1080863910568919 / 36028797018963968)"
proof -
  have acc: "accumulate (\<lambda>f. []) (Fin 0) [[''value'' \<mapsto> PStr ''inf'']] = Inr PInf"
    by (simp add: event_step_def rbind_def dict_get_def parse_value_inf parse_weight_def
        try_except_def float_of_small_eval fmul_def fadd_def)
  have b: "loyalty_bonus [''created_at'' \<mapsto> PStr ''bad-date''] (Naive \<lparr>year = 2025, month = 1, day = 1, hour = 0, minute = 0, second = 0, microsecond = 0\<rparr>) = Inr (Fin 0)"
    by (rule loyalty_bonus_parse_fail[OF strptime_examples(1)])
  have c: "calc_score (\<lambda>f. []) [[''value'' \<mapsto> PStr ''inf'']] [''created_at'' \<mapsto> PStr ''bad-date''] (Naive \<lparr>year = 2025, month = 1, day = 1, hour = 0, minute = 0, second = 0, microsecond = 0\<rparr>) = Inr NaN"
    by (simp add: calc_score_after_bonus[OF acc b] apply_bonus_no_bonus apply_tier_def dict_get_def
        fmul_def rbind_def)
  have d: "fmul (Fin 6) (rnd (5 / 1000)) = Fin (1080863910568919 / 36028797018963968)"
    using bonus_eval(7) by (simp only: lit_0_005_def)
  show ?thesis
    using acc b c d strptime_examples(1,2) loyalty_bonus_aware[OF strptime_examples(2)]
    by (simp add: apply_bonus_no_bonus)
qed


section \<open>Fixed inputs\<close>

subsection \<open>The reference vectors\<close>

lemma vector_pro:
  "calc_score frepr [[''value'' \<mapsto> PStr ''1.5'', ''weight'' \<mapsto> PStr ''2'']]
     [''tier'' \<mapsto> PStr ''pro'', ''created_at'' \<mapsto> PStr ''2020-01-01'']
     (Naive \<lparr>year = 2025, month = 1, day = 1, hour = 0, minute = 0, second = 0, microsecond = 0\<rparr>)
   = Inr (rnd (322 / 100))"
  by (simp add: score_ev str_ev date_ev rnd_ev)

lemma vector_vip:
  "calc_score frepr [[''value'' \<mapsto> PStr ''100'', ''weight'' \<mapsto> PStr ''1'']]
     [''tier'' \<mapsto> PStr ''vip'', ''created_at'' \<mapsto> PStr ''2018-01-01'']
     (Naive \<lparr>year = 2025, month = 1, day = 1, hour = 0, minute = 0, second = 0, microsecond = 0\<rparr>)
   = Inr (rnd (1164 / 10))"
  by (simp add: score_ev str_ev date_ev rnd_ev)

lemma vector_neg_zero:
  "calc_score frepr [[''value'' \<mapsto> PStr ''-1'', ''weight'' \<mapsto> PStr ''-0'']]
     [''tier'' \<mapsto> PStr ''vip'', ''created_at'' \<mapsto> PStr ''2020-01-01'']
     (Naive \<lparr>year = 2025, month = 1, day = 1, hour = 0, minute = 0, second = 0, microsecond = 0\<rparr>)
   = Inr (Fin 0)"
  by (simp add: score_ev str_ev date_ev rnd_ev)

lemma vector_empty:
  "calc_score frepr []
     [''tier'' \<mapsto> PStr ''free'', ''created_at'' \<mapsto> PStr ''2020-01-01'']
     (Naive \<lparr>year = 2025, month = 1, day = 1, hour = 0, minute = 0, second = 0, microsecond = 0\<rparr>)
   = Inr (Fin 0)"
  by (simp add: score_ev str_ev date_ev rnd_ev)

text \<open>Claim C2: with the reference time 2025-01-01T00:00:00 the four fixed vectors give
  \<open>0.0\<close>, \<open>3.22\<close>, \<open>116.4\<close> and \<open>0.0\<close>, where \<open>3.22\<close> and \<open>116.4\<close> are the doubles nearest
  to these decimals.\<close>

theorem reference_vectors:
  "calc_score frepr []
     [''tier'' \<mapsto> PStr ''free'', ''created_at'' \<mapsto> PStr ''2020-01-01'']
     (Naive \<lparr>year = 2025, month = 1, day = 1, hour = 0, minute = 0, second = 0, microsecond = 0\<rparr>)
   = Inr (Fin 0)
   \<and> calc_score frepr [[''value'' \<mapsto> PStr ''1.5'', ''weight'' \<mapsto> PStr ''2'']]
     [''tier'' \<mapsto> PStr ''pro'', ''created_at'' \<mapsto> PStr ''2020-01-01'']
     (Naive \<lparr>year = 2025, month = 1, day = 1, hour = 0, minute = 0, second = 0, microsecond = 0\<rparr>)
   = Inr (rnd (322 / 100))
   \<and> calc_score frepr [[''value'' \<mapsto> PStr ''100'', ''weight'' \<mapsto> PStr ''1'']]
     [''tier'' \<mapsto> PStr ''vip'', ''created_at'' \<mapsto> PStr ''2018-01-01'']
     (Naive \<lparr>year = 2025, month = 1, day = 1, hour = 0, minute = 0, second = 0, microsecond = 0\<rparr>)
   = Inr (rnd (1164 / 10))
   \<and> calc_score frepr [[''value'' \<mapsto> PStr ''-1'', ''weight'' \<mapsto> PStr ''-0'']]
     [''tier'' \<mapsto> PStr ''vip'', ''created_at'' \<mapsto> PStr ''2020-01-01'']
     (Naive \<lparr>year = 2025, month = 1, day = 1, hour = 0, minute = 0, second = 0, microsecond = 0\<rparr>)
   = Inr (Fin 0)"
  using vector_empty vector_pro vector_vip vector_neg_zero by blast

subsection \<open>An exception that escapes\<close>

text \<open>Claim C1 (the code at a failing input): an event whose weight is the \<^verbatim>\<open>int\<close>
  \<open>2 ^ 1024\<close> makes \<^verbatim>\<open>v * w\<close> raise \<^verbatim>\<open>OverflowError\<close>, which no handler catches, whatever
  the user record and the reference time.\<close>

theorem calc_score_huge_weight_raises:
  "calc_score frepr [[''value'' \<mapsto> PInt 1, ''weight'' \<mapsto> PInt (2 ^ 1024)]] user now
   = Inl OverflowError"
  by (simp add: calc_score_def event_step_def parse_value_def parse_weight_def dict_get_def
      try_except_def rbind_def float_of_int_def rnd_ev)

end
